theory Spec2Isabelle
  imports Complex_Main "HOL-Library.Sublist"
begin

section \<open>Headless test runner: strings\<close>

text \<open>
  The runner (\<open>headless/Headless.cpp\<close>) handles C strings (\<open>argv\<close>) and
  \<open>std::string\<close> values. Both are modelled as \<open>string\<close>; a C string holds no
  NUL character, so \<open>strcmp a b = 0\<close> is equality and \<open>strlen\<close> is \<open>length\<close>.
\<close>

definition ChopFront :: "string \<Rightarrow> string \<Rightarrow> string" where
  "ChopFront s front =
     (if length s \<ge> length front then
        (if take (length front) s = front then drop (length front) s else s)
      else s)"

definition ChopEnd :: "string \<Rightarrow> string \<Rightarrow> string" where
  "ChopEnd s end' =
     (if length s \<ge> length end' then
        (let endpos = length s - length end' in
         if drop endpos s = end' then take endpos s else s)
      else s)"

text \<open>The test name guessed from the boot file name (line 288 of \<open>main\<close>).\<close>

definition guessTestName :: "string \<Rightarrow> string" where
  "guessTestName bootFilename =
     ChopEnd (ChopFront (ChopFront bootFilename ''tests/'') ''pspautotests/tests/'') ''.prx''"

text \<open>
  \<open>tolower\<close> of the C locale (the program never calls \<open>setlocale\<close>): only the letters
  \<open>A\<close> to \<open>Z\<close> change.
\<close>

definition tolower :: "char \<Rightarrow> char" where
  "tolower c =
     (if 65 \<le> (of_char c :: nat) \<and> (of_char c :: nat) \<le> 90
      then char_of ((of_char c :: nat) + 32) else c)"

text \<open>
  \<open>strcasecmp\<close> (POSIX): the characters are compared after \<open>tolower\<close>; the result is
  zero for equal strings, and negative or positive by the first difference. Where one
  string ends first its terminating NUL is the smaller character.
\<close>

fun strcasecmp :: "string \<Rightarrow> string \<Rightarrow> int" where
  "strcasecmp [] [] = 0"
| "strcasecmp [] (b # bs) = - 1"
| "strcasecmp (a # as) [] = 1"
| "strcasecmp (a # as) (b # bs) =
     (if tolower a = tolower b then strcasecmp as bs
      else int (of_char (tolower a)) - int (of_char (tolower b)))"

text \<open>
  The test of an option with a value, as \<open>main\<close> writes it:
  \<open>!strncmp(arg, key, strlen(key)) && strlen(arg) > strlen(key)\<close>.
\<close>

definition has_value :: "string \<Rightarrow> string \<Rightarrow> bool" where
  "has_value key arg \<longleftrightarrow> take (length key) arg = key \<and> length arg > length key"

section \<open>Data of the runner\<close>

text \<open>
  The enumerations \<open>GPUCore\<close>, \<open>CPUCore\<close> and \<open>CoreState\<close> are declared in the core's
  headers. \<open>main\<close> names the enumerators of the first two and, of the third,
  \<open>CORE_RUNNING\<close> and \<open>CORE_NEXTFRAME\<close>; \<open>CORE_STEPPING\<close>, \<open>CORE_POWERDOWN\<close> and
  \<open>CORE_ERROR\<close> are the other values the core can leave in \<open>coreState\<close>, each of
  which ends the loop of \<open>main\<close>.
\<close>

datatype GPUCore = GPU_NULL | GPU_GLES | GPU_SOFTWARE | GPU_DIRECTX9

datatype CPUCore = CPU_INTERPRETER | CPU_JIT

datatype CoreState = CORE_RUNNING | CORE_STEPPING | CORE_POWERDOWN | CORE_ERROR | CORE_NEXTFRAME

text \<open>
  A C \<open>double\<close>, as far as \<open>main\<close> depends on it: a finite value (taken as a real number,
  rounding left out), the two infinities and NaN. \<open>dless\<close> is \<open><\<close> and \<open>dadd\<close> is \<open>+\<close>
  of IEEE 754: a comparison with NaN is false.
\<close>

datatype double = Finite real | PosInf | NegInf | NaN

fun dless :: "double \<Rightarrow> double \<Rightarrow> bool" where
  "dless NaN _ = False"
| "dless _ NaN = False"
| "dless (Finite a) (Finite b) = (a < b)"
| "dless (Finite a) PosInf = True"
| "dless (Finite a) NegInf = False"
| "dless PosInf _ = False"
| "dless NegInf NegInf = False"
| "dless NegInf _ = True"

fun dadd :: "double \<Rightarrow> double \<Rightarrow> double" where
  "dadd NaN _ = NaN"
| "dadd _ NaN = NaN"
| "dadd (Finite a) (Finite b) = Finite (a + b)"
| "dadd (Finite a) PosInf = PosInf"
| "dadd (Finite a) NegInf = NegInf"
| "dadd PosInf NegInf = NaN"
| "dadd PosInf _ = PosInf"
| "dadd NegInf PosInf = NaN"
| "dadd NegInf _ = NegInf"

text \<open>
  The local variables of \<open>main\<close> that the argument loop sets, with the global
  \<open>teamCityMode\<close> (declared beside \<open>TeamCityPrint\<close>, false until \<open>--teamcity\<close> is read).
\<close>

record locals =
  fullLog :: bool
  useJit :: bool
  autoCompare :: bool
  gpuCore :: GPUCore
  bootFilename :: "string option"
  mountIso :: "string option"
  screenshotFilename :: "string option"
  readMount :: bool
  timeout :: double
  teamCityMode :: bool

definition init_locals :: locals where
  "init_locals =
     \<lparr>fullLog = False, useJit = True, autoCompare = False, gpuCore = GPU_NULL,
      bootFilename = None, mountIso = None, screenshotFilename = None,
      readMount = False, timeout = Finite (- 1), teamCityMode = False\<rparr>"

text \<open>
  The fields of \<open>coreParameter\<close> that \<open>main\<close> assigns. \<open>collectEmuLog\<close> is a pointer to
  the local \<open>output\<close> or null: here true when it is set.
\<close>

record CoreParameter =
  cpuCore :: CPUCore
  cp_gpuCore :: GPUCore
  enableSound :: bool
  fileToStart :: string
  cp_mountIso :: string
  startPaused :: bool
  enableDebugging :: bool
  printfEmuLog :: bool
  collectEmuLog :: bool
  headLess :: bool
  renderWidth :: int
  renderHeight :: int
  outputWidth :: int
  outputHeight :: int
  pixelWidth :: int
  pixelHeight :: int
  unthrottle :: bool

text \<open>The four messages of the reporting protocol, with the test name and the message.\<close>

datatype TestEvent =
    testStarted string
  | testIgnored string string
  | testFailed string string
  | testFinished string

text \<open>
  The result of a comparison: one of three verdicts, with a diagnostic string. It is
  produced by the comparison collaborator.
\<close>

datatype Verdict = Pass | Fail | Error

record ComparisonResult =
  verdict :: Verdict
  diagnostic :: string

text \<open>
  What the process does that is seen from outside, in the order of the calls: the trace
  of a run is a list of these. \<open>SetCoreState\<close> is an assignment of \<open>main\<close> to the
  global \<open>coreState\<close>, which the core and the host read.
\<close>

datatype action =
    PrintUsage string "string option"
  | GetHost GPUCore
  | CallInitGL
  | CallPSP_Init CoreParameter
  | Stderr string
  | Printf string
  | TeamCity TestEvent
  | BootDone
  | SetComparisonScreenshot string
  | SetCoreState CoreState
  | RunLoopFor int
  | PassThrough string
  | SwapBuffers
  | SendDebugOutput string
  | CoreStop
  | ShutdownGL
  | PSP_Shutdown
  | FlushDebugOutput
  | DeleteHost
  | CompareOutput string string

text \<open>
  One call of \<open>PSP_RunLoopFor\<close> followed by \<open>time_update\<close>, as the world outside \<open>main\<close>
  decides it: the texts the emulated program prints during the slice, the \<open>coreState\<close>
  the core leaves, and the value of \<open>time_now()\<close> after the update of line 320.
\<close>

record quantum =
  q_printed :: "string list"
  q_state :: CoreState
  q_time :: real

text \<open>
  The collaborators of \<open>main\<close> that are not part of it: the C library's \<open>strtod\<close>, the
  host's \<open>InitGL\<close> (its result and the error string it leaves), \<open>PSP_Init\<close> (given the
  error string, its result and the error string it leaves), the macro \<open>usToCycles\<close>, the
  clock at the \<open>time_update\<close> of line 305, the quanta of the run, and the comparison
  collaborator (on the boot file name and the captured text).
\<close>

record env =
  strtod :: "string \<Rightarrow> double"
  InitGL :: "GPUCore \<Rightarrow> bool \<times> string"
  PSP_Init :: "CoreParameter \<Rightarrow> string \<Rightarrow> bool \<times> string"
  usToCycles :: "int \<Rightarrow> int"
  time_start :: real
  quanta :: "nat \<Rightarrow> quantum"
  compare :: "string \<Rightarrow> string \<Rightarrow> ComparisonResult"

text \<open>The state of the run loop: the global \<open>coreState\<close>, the locals \<open>output\<close> and
  \<open>doCompare\<close>, and the trace so far.\<close>

record run_state =
  coreState :: CoreState
  "output" :: string
  doCompare :: bool
  trace :: "action list"

text \<open>How the process ends: the value \<open>main\<close> returns, its trace and the last value of
  \<open>output\<close>.\<close>

record result =
  exit_code :: int
  actions :: "action list"
  captured :: string

section \<open>The argument loop of \<open>main\<close> (lines 143 to 211)\<close>

text \<open>
  One turn of the loop at argument \<open>a\<close>. \<open>Inl reason\<close> is
  \<open>printUsage(argv[0], reason); return 1\<close>.
\<close>

definition parse_arg :: "(string \<Rightarrow> double) \<Rightarrow> locals \<Rightarrow> string \<Rightarrow> string option + locals" where
  "parse_arg strtod' v a =
     (if readMount v then Inr (v\<lparr>mountIso := Some a, readMount := False\<rparr>)
      else if a = ''-m'' \<or> a = ''--mount'' then Inr (v\<lparr>readMount := True\<rparr>)
      else if a = ''-l'' \<or> a = ''--log'' then Inr (v\<lparr>fullLog := True\<rparr>)
      else if a = ''-i'' then Inr (v\<lparr>useJit := False\<rparr>)
      else if a = ''-j'' then Inr (v\<lparr>useJit := True\<rparr>)
      else if a = ''-c'' \<or> a = ''--compare'' then Inr (v\<lparr>autoCompare := True\<rparr>)
      else if has_value ''--graphics='' a then
        (let gpuName = drop (length ''--graphics='') a in
         if strcasecmp gpuName ''gles'' = 0 then Inr (v\<lparr>gpuCore := GPU_GLES\<rparr>)
         else if strcasecmp gpuName ''software'' = 0 then Inr (v\<lparr>gpuCore := GPU_SOFTWARE\<rparr>)
         else if strcasecmp gpuName ''directx9'' = 0 then Inr (v\<lparr>gpuCore := GPU_DIRECTX9\<rparr>)
         else if strcasecmp gpuName ''null'' = 0 then Inr (v\<lparr>gpuCore := GPU_NULL\<rparr>)
         else Inl (Some ''Unknown gpu backend specified after --graphics=''))
      else if a = ''--graphics'' then Inr (v\<lparr>gpuCore := GPU_GLES\<rparr>)
      else if has_value ''--screenshot='' a then
        Inr (v\<lparr>screenshotFilename := Some (drop (length ''--screenshot='') a)\<rparr>)
      else if has_value ''--timeout='' a then
        Inr (v\<lparr>timeout := strtod' (drop (length ''--timeout='') a)\<rparr>)
      else if a = ''--teamcity'' then Inr (v\<lparr>teamCityMode := True\<rparr>)
      else if bootFilename v = None then Inr (v\<lparr>bootFilename := Some a\<rparr>)
      else if a = ''--help'' \<or> a = ''-h'' then Inl None
      else Inl (Some (''Unexpected argument '' @ a)))"

fun parse_loop :: "(string \<Rightarrow> double) \<Rightarrow> locals \<Rightarrow> string list \<Rightarrow> string option + locals" where
  "parse_loop strtod' v [] = Inr v"
| "parse_loop strtod' v (a # as) =
     (case parse_arg strtod' v a of
        Inl reason \<Rightarrow> Inl reason
      | Inr v' \<Rightarrow> parse_loop strtod' v' as)"

text \<open>
  The loop and the two checks after it, on \<open>argv[1..]\<close>: the locals and the boot file
  name, or the reason given to \<open>printUsage\<close>. \<open>argc <= 1\<close> is \<open>args = []\<close>.
\<close>

definition parse_args :: "(string \<Rightarrow> double) \<Rightarrow> string list \<Rightarrow> string option + (locals \<times> string)" where
  "parse_args strtod' args =
     (case parse_loop strtod' init_locals args of
        Inl reason \<Rightarrow> Inl reason
      | Inr v \<Rightarrow>
          if readMount v then Inl (Some ''Missing argument after -m'')
          else (case bootFilename v of
                  None \<Rightarrow> Inl (if args = [] then None else Some ''No executable specified'')
                | Some b \<Rightarrow> Inr (v, b)))"

section \<open>The run (lines 213 to 347)\<close>

text \<open>
  The run is modelled by the calls it makes to its collaborators and the values it gets
  back. The set-up of the log manager (lines 219 to 230) and the assignments to the
  global configuration (lines 254 to 284) change nothing that \<open>main\<close> reads again and
  are left out.
\<close>

text \<open>
  Modelled from the spec: \<open>TeamCityPrint\<close> (declared in \<open>Compare.h\<close>, which is not part
  of the sources at hand) emits the event when the reporting protocol is enabled and is
  a no-op otherwise.
\<close>

definition TeamCityPrint :: "bool \<Rightarrow> TestEvent \<Rightarrow> action list" where
  "TeamCityPrint mode ev = (if mode then [TeamCity ev] else [])"

text \<open>
  Modelled from the spec: \<open>Core_Stop\<close> (the core's, not part of the sources at hand)
  requests the cancellation of the run: the shared state leaves \<open>CORE_RUNNING\<close>.
\<close>

definition Core_Stop :: "run_state \<Rightarrow> run_state" where
  "Core_Stop s = s\<lparr>coreState := CORE_POWERDOWN, trace := trace s @ [CoreStop]\<rparr>"

text \<open>
  Modelled from the spec: the output sink's \<open>append\<close> (inside the core, not part of the
  sources at hand). If compare-output is active (the core was given the buffer) the text
  is appended to the buffer without echoing; otherwise it is written at once to the
  pass-through destination.
\<close>

definition append_output :: "CoreParameter \<Rightarrow> run_state \<Rightarrow> string \<Rightarrow> run_state" where
  "append_output cp s text =
     (if collectEmuLog cp then s\<lparr>output := output s @ text\<rparr>
      else s\<lparr>trace := trace s @ [PassThrough text]\<rparr>)"

text \<open>The call \<open>PSP_RunLoopFor(blockTicks)\<close> of turn \<open>i\<close>, with what the quantum does.\<close>

definition PSP_RunLoopFor :: "env \<Rightarrow> CoreParameter \<Rightarrow> nat \<Rightarrow> int \<Rightarrow> run_state \<Rightarrow> run_state" where
  "PSP_RunLoopFor e cp i blockTicks s =
     (foldl (append_output cp) (s\<lparr>trace := trace s @ [RunLoopFor blockTicks]\<rparr>)
        (q_printed (quanta e i)))
     \<lparr>coreState := q_state (quanta e i)\<rparr>"

text \<open>Lines 316 to 319.\<close>

definition handle_nextframe :: "run_state \<Rightarrow> run_state" where
  "handle_nextframe s =
     (if coreState s = CORE_NEXTFRAME then
        (let s1 = s\<lparr>coreState := CORE_RUNNING, trace := trace s @ [SetCoreState CORE_RUNNING]\<rparr>
         in s1\<lparr>trace := trace s1 @ [SwapBuffers]\<rparr>)
      else s)"

text \<open>Lines 321 to 329, with \<open>now\<close> the value of \<open>time_now()\<close>.\<close>

definition handle_deadline :: "bool \<Rightarrow> string \<Rightarrow> double \<Rightarrow> real \<Rightarrow> run_state \<Rightarrow> run_state" where
  "handle_deadline mode name deadline now s =
     (if dless deadline (Finite now) then
        Core_Stop (s\<lparr>doCompare := False,
                     trace := trace s @ [Printf (output s),
                                        SendDebugOutput (''TIMEOUT'' @ [CHR 0x0A])]
                              @ TeamCityPrint mode (testFailed name ''Test timeout'')\<rparr>)
      else s)"

text \<open>The body of the \<open>while\<close> loop at turn \<open>i\<close> (lines 312 to 329).\<close>

definition loop_body ::
  "env \<Rightarrow> CoreParameter \<Rightarrow> bool \<Rightarrow> string \<Rightarrow> double \<Rightarrow> nat \<Rightarrow> run_state \<Rightarrow> run_state" where
  "loop_body e cp mode name deadline i s =
     (let blockTicks = usToCycles e (1000000 div 10) in
      handle_deadline mode name deadline (q_time (quanta e i))
        (handle_nextframe (PSP_RunLoopFor e cp i blockTicks s)))"

text \<open>
  The loop \<open>while (coreState == CORE_RUNNING)\<close>. It need not end: \<open>None\<close> is the run
  that goes on for ever.
\<close>

partial_function (option) run_loop ::
  "env \<Rightarrow> CoreParameter \<Rightarrow> bool \<Rightarrow> string \<Rightarrow> double \<Rightarrow> nat \<Rightarrow> run_state \<Rightarrow> run_state option" where
  "run_loop e cp mode name deadline i s =
     (if coreState s = CORE_RUNNING
      then run_loop e cp mode name deadline (Suc i) (loop_body e cp mode name deadline i s)
      else Some s)"

declare run_loop.simps [code]

text \<open>
  Lines 234 to 252: the parameter handed to \<open>PSP_Init\<close>. \<open>collectEmuLog\<close> is assigned
  only under \<open>autoCompare\<close> (line 243); a fresh \<open>CoreParameter\<close> holds a null pointer.
\<close>

definition coreParameter :: "locals \<Rightarrow> string \<Rightarrow> bool \<Rightarrow> CoreParameter" where
  "coreParameter v boot glWorking =
     \<lparr>cpuCore = (if useJit v then CPU_JIT else CPU_INTERPRETER),
      cp_gpuCore = (if glWorking then gpuCore v else GPU_NULL),
      enableSound = False,
      fileToStart = boot,
      cp_mountIso = (case mountIso v of Some m \<Rightarrow> m | None \<Rightarrow> []),
      startPaused = False,
      enableDebugging = False,
      printfEmuLog = (\<not> autoCompare v),
      collectEmuLog = autoCompare v,
      headLess = True,
      renderWidth = 480, renderHeight = 272,
      outputWidth = 480, outputHeight = 272,
      pixelWidth = 480, pixelHeight = 272,
      unthrottle = True\<rparr>"

text \<open>
  Line 288: the global \<open>teamCityName\<close> (an empty string until it is assigned).
\<close>

definition teamCityName :: "locals \<Rightarrow> string \<Rightarrow> string" where
  "teamCityName v boot = (if teamCityMode v then guessTestName boot else [])"

text \<open>Line 307.\<close>

definition deadline_of :: "real \<Rightarrow> double \<Rightarrow> double" where
  "deadline_of now tmo = (if dless tmo (Finite 0) then PosInf else dadd (Finite now) tmo)"

text \<open>Lines 213 to 217: the host is made and the graphics are set up.\<close>

definition host_trace :: "locals \<Rightarrow> action list" where
  "host_trace v = [GetHost (gpuCore v), CallInitGL]"

text \<open>The parameter \<open>main\<close> builds and the outcome of \<open>PSP_Init\<close> on it (line 291).\<close>

definition boot_parameter :: "env \<Rightarrow> locals \<Rightarrow> string \<Rightarrow> CoreParameter" where
  "boot_parameter e v boot = coreParameter v boot (fst (InitGL e (gpuCore v)))"

definition boot_result :: "env \<Rightarrow> locals \<Rightarrow> string \<Rightarrow> bool \<times> string" where
  "boot_result e v boot = PSP_Init e (boot_parameter e v boot) (snd (InitGL e (gpuCore v)))"

text \<open>Lines 292 to 295: the boot has failed.\<close>

definition boot_failed :: "env \<Rightarrow> locals \<Rightarrow> string \<Rightarrow> result" where
  "boot_failed e v boot =
     \<lparr>exit_code = 1,
      actions = host_trace v @ [CallPSP_Init (boot_parameter e v boot),
                  Stderr (''Failed to start '' @ boot @ ''. Error: ''
                          @ snd (boot_result e v boot) @ [CHR 0x0A]),
                  Printf (''TESTERROR'' @ [CHR 0x0A])]
                @ TeamCityPrint (teamCityMode v)
                    (testIgnored (teamCityName v boot) ''PRX/ELF missing''),
      captured = []\<rparr>"

text \<open>Lines 298 to 309: from the boot to the first test of the loop.\<close>

definition loop_start :: "env \<Rightarrow> locals \<Rightarrow> string \<Rightarrow> run_state" where
  "loop_start e v boot =
     \<lparr>coreState = CORE_RUNNING, output = [], doCompare = True,
      trace = host_trace v @ [CallPSP_Init (boot_parameter e v boot)]
              @ TeamCityPrint (teamCityMode v) (testStarted (teamCityName v boot))
              @ [BootDone]
              @ (case screenshotFilename v of
                   Some f \<Rightarrow> [SetComparisonScreenshot f] | None \<Rightarrow> [])
              @ [SetCoreState CORE_RUNNING]\<rparr>"

text \<open>
  Modelled from the spec: \<open>CompareOutput\<close> (defined in \<open>Compare.cpp\<close>, which is not
  part of the sources at hand; \<open>main\<close> drops the value it returns). It hands the boot
  file name and the captured text to the comparison collaborator, and a result that is
  Fail or Error causes a Failed event with the comparison's diagnostic, emitted like
  every event through \<open>TeamCityPrint\<close>.
\<close>

definition CompareOutput_call ::
  "env \<Rightarrow> bool \<Rightarrow> string \<Rightarrow> string \<Rightarrow> string \<Rightarrow> action list" where
  "CompareOutput_call e mode name boot text =
     CompareOutput boot text #
     (if verdict (compare e boot text) = Pass then []
      else TeamCityPrint mode (testFailed name (diagnostic (compare e boot text))))"

text \<open>Lines 332 to 346: after the loop.\<close>

definition finish :: "env \<Rightarrow> locals \<Rightarrow> string \<Rightarrow> run_state \<Rightarrow> result" where
  "finish e v boot s =
     \<lparr>exit_code = 0,
      actions = trace s @ [ShutdownGL, PSP_Shutdown, FlushDebugOutput, DeleteHost]
                @ (if autoCompare v \<and> doCompare s
                   then CompareOutput_call e (teamCityMode v) (teamCityName v boot)
                          boot (output s)
                   else [])
                @ TeamCityPrint (teamCityMode v) (testFinished (teamCityName v boot)),
      captured = output s\<rparr>"

definition run :: "env \<Rightarrow> locals \<Rightarrow> string \<Rightarrow> result option" where
  "run e v boot =
     (if \<not> fst (boot_result e v boot) then Some (boot_failed e v boot)
      else
        (case run_loop e (boot_parameter e v boot) (teamCityMode v) (teamCityName v boot)
                (deadline_of (time_start e) (timeout v)) 0 (loop_start e v boot) of
           None \<Rightarrow> None
         | Some s \<Rightarrow> Some (finish e v boot s)))"

text \<open>\<open>main\<close> on \<open>argv[0]\<close> and \<open>argv[1..]\<close>.\<close>

definition main :: "env \<Rightarrow> string \<Rightarrow> string list \<Rightarrow> result option" where
  "main e progname args =
     (case parse_args (strtod e) args of
        Inl reason \<Rightarrow>
          Some \<lparr>exit_code = 1, actions = [PrintUsage progname reason], captured = []\<rparr>
      | Inr (v, boot) \<Rightarrow> run e v boot)"

text \<open>
  The test events of a trace, in order: those that \<open>main\<close> prints itself and the one
  that the call of \<open>CompareOutput\<close> may print.
\<close>

fun events :: "action list \<Rightarrow> TestEvent list" where
  "events [] = []"
| "events (TeamCity ev # as) = ev # events as"
| "events (_ # as) = events as"

section \<open>Notions used to state the properties\<close>

text \<open>The actions of a quantum that ends without a timeout.\<close>

fun quiet :: "action \<Rightarrow> bool" where
  "quiet (RunLoopFor _) = True"
| "quiet (PassThrough _) = True"
| "quiet (SetCoreState _) = True"
| "quiet SwapBuffers = True"
| "quiet _ = False"

text \<open>The two calls of the cleanup, and the call of the comparison.\<close>

fun cleanup :: "action \<Rightarrow> bool" where
  "cleanup ShutdownGL = True"
| "cleanup PSP_Shutdown = True"
| "cleanup _ = False"


text \<open>
  Turn \<open>j\<close> of the loop goes on to the next: the core leaves the state running (or
  asks for a frame, after which \<open>main\<close> sets it running) and the deadline has not passed.
  Turn \<open>j\<close> is the last when it does not.
\<close>

definition continues :: "env \<Rightarrow> double \<Rightarrow> nat \<Rightarrow> bool" where
  "continues e deadline j \<longleftrightarrow>
     (q_state (quanta e j) = CORE_RUNNING \<or> q_state (quanta e j) = CORE_NEXTFRAME)
     \<and> \<not> dless deadline (Finite (q_time (quanta e j)))"


text \<open>The calls of \<open>PSP_RunLoopFor\<close>.\<close>

fun runs :: "action \<Rightarrow> bool" where
  "runs (RunLoopFor _) = True"
| "runs _ = False"

text \<open>
  An argument that the loop takes for an option when it is not the value of \<open>-m\<close>: one
  of the tests of lines 151 to 186 holds of it.
\<close>

definition recognized :: "string \<Rightarrow> bool" where
  "recognized a \<longleftrightarrow>
     a \<in> set [''-m'', ''--mount'', ''-l'', ''--log'', ''-i'', ''-j'', ''-c'', ''--compare'',
              ''--graphics'', ''--teamcity'']
     \<or> has_value ''--graphics='' a \<or> has_value ''--screenshot='' a
     \<or> has_value ''--timeout='' a"

text \<open>The tail of the trace of a run that timed out with \<open>buffer\<close> in \<open>output\<close>.\<close>

definition timeout_report :: "bool \<Rightarrow> string \<Rightarrow> string \<Rightarrow> action list" where
  "timeout_report mode name buffer =
     [Printf buffer, SendDebugOutput (''TIMEOUT'' @ [CHR 0x0A])]
     @ TeamCityPrint mode (testFailed name ''Test timeout'')
     @ [CoreStop]"

text \<open>Lines 312 to 319: the quantum of turn \<open>i\<close> and the frame it may ask for.\<close>

definition quantum_step :: "env \<Rightarrow> CoreParameter \<Rightarrow> nat \<Rightarrow> run_state \<Rightarrow> run_state" where
  "quantum_step e cp i s = handle_nextframe (PSP_RunLoopFor e cp i (usToCycles e (1000000 div 10)) s)"

section \<open>Sample worlds\<close>

text \<open>
  Concrete collaborators on which the runner is evaluated. The comparison passes when
  the captured text is \<open>okokok\<close> and fails otherwise. \<open>strtod_table\<close> stands for
  \<open>strtod\<close> on the strings used below only: \<open>5\<close>, \<open>0.5\<close> and \<open>-1\<close>, and text
  that is no number (\<open>abc\<close>), which the C library converts to zero.
\<close>

definition strtod_table :: "string \<Rightarrow> double" where
  "strtod_table s =
     (if s = ''5'' then Finite 5
      else if s = ''0.5'' then Finite (1 / 2)
      else if s = ''-1'' then Finite (- 1)
      else Finite 0)"

definition world :: "bool \<Rightarrow> bool \<Rightarrow> (nat \<Rightarrow> quantum) \<Rightarrow> env" where
  "world gl boot qs =
     \<lparr>strtod = strtod_table,
      InitGL = (\<lambda>g. (gl, if gl then [] else ''no context'')),
      PSP_Init = (\<lambda>cp err. (boot, if boot then err else ''file not found'')),
      usToCycles = (\<lambda>us. us * 222),
      time_start = 0,
      quanta = qs,
      compare = (\<lambda>b text.
        if text = ''okokok'' then \<lparr>verdict = Pass, diagnostic = []\<rparr>
        else \<lparr>verdict = Fail, diagnostic = ''Output different from expected file''\<rparr>)\<rparr>"

text \<open>Two frames, each printing a line, then the program ends; a second passes per quantum.\<close>

definition two_frames :: "nat \<Rightarrow> quantum" where
  "two_frames i =
     \<lparr>q_printed = [''ok''],
      q_state = (if i < 2 then CORE_NEXTFRAME else CORE_POWERDOWN),
      q_time = real i + 1\<rparr>"

text \<open>A program that prints one line and ends in its first quantum.\<close>

definition one_line :: "nat \<Rightarrow> quantum" where
  "one_line i = \<lparr>q_printed = [''no''], q_state = CORE_POWERDOWN, q_time = real i + 1\<rparr>"

text \<open>A program that never ends and prints a line in each quantum.\<close>

definition never_ends :: "nat \<Rightarrow> quantum" where
  "never_ends i = \<lparr>q_printed = [''tick''], q_state = CORE_RUNNING, q_time = real i + 1\<rparr>"

text \<open>Command lines (\<open>argv[1..]\<close>), with the locals and the boot file they parse to.\<close>

definition args_teamcity :: "string list" where
  "args_teamcity = [''tests/cpu/alu.prx'', ''--teamcity'']"

definition locals_teamcity :: locals where
  "locals_teamcity =
     init_locals\<lparr>bootFilename := Some ''tests/cpu/alu.prx'', teamCityMode := True\<rparr>"


definition locals_timeout :: locals where
  "locals_timeout =
     init_locals\<lparr>bootFilename := Some ''x.elf'', timeout := Finite 5,
                  teamCityMode := True, autoCompare := True\<rparr>"

definition args_glfail :: "string list" where
  "args_glfail = [''tests/cpu/alu.prx'', ''--teamcity'', ''--graphics=gles'']"

definition locals_glfail :: locals where
  "locals_glfail =
     init_locals\<lparr>bootFilename := Some ''tests/cpu/alu.prx'', teamCityMode := True,
                  gpuCore := GPU_GLES\<rparr>"

definition args_unparsed :: "string list" where
  "args_unparsed = [''x.elf'', ''--timeout=abc'', ''--teamcity'']"

definition locals_unparsed :: locals where
  "locals_unparsed =
     init_locals\<lparr>bootFilename := Some ''x.elf'', timeout := Finite 0, teamCityMode := True\<rparr>"

definition locals_boot :: locals where
  "locals_boot = init_locals\<lparr>bootFilename := Some ''x.elf''\<rparr>"

text \<open>Two states of the loop, with nothing printed yet.\<close>

definition state_running :: run_state where
  "state_running = \<lparr>coreState = CORE_RUNNING, output = [], doCompare = True, trace = []\<rparr>"

definition state_nextframe :: run_state where
  "state_nextframe = \<lparr>coreState = CORE_NEXTFRAME, output = [], doCompare = True, trace = []\<rparr>"

section \<open>Name derivation\<close>

lemma prefix_take_iff: "prefix p s \<longleftrightarrow> length p \<le> length s \<and> take (length p) s = p"
proof
  assume "prefix p s"
  then show "length p \<le> length s \<and> take (length p) s = p"
    by (auto simp: prefix_def)
next
  assume a: "length p \<le> length s \<and> take (length p) s = p"
  have "s = take (length p) s @ drop (length p) s" by simp
  with a have "s = p @ drop (length p) s" by simp
  then show "prefix p s" by (rule prefixI)
qed

lemma suffix_drop_iff:
  "suffix e s \<longleftrightarrow> length e \<le> length s \<and> drop (length s - length e) s = e"
proof
  assume "suffix e s"
  then show "length e \<le> length s \<and> drop (length s - length e) s = e"
    by (auto simp: suffix_def)
next
  assume a: "length e \<le> length s \<and> drop (length s - length e) s = e"
  have "s = take (length s - length e) s @ drop (length s - length e) s" by simp
  with a have "s = take (length s - length e) s @ e" by simp
  then show "suffix e s" by (rule suffixI)
qed

lemma ChopFront_prefix: "ChopFront s front = (if prefix front s then drop (length front) s else s)"
  by (auto simp: ChopFront_def prefix_take_iff)

lemma ChopEnd_suffix:
  "ChopEnd s e = (if suffix e s then take (length s - length e) s else s)"
  by (auto simp: ChopEnd_def Let_def suffix_drop_iff)

lemma ChopFront_length: "length (ChopFront s front) \<le> length s"
  by (simp add: ChopFront_prefix)

lemma ChopEnd_length: "length (ChopEnd s e) \<le> length s"
  by (simp add: ChopEnd_suffix)

lemma guessTestName_fixed:
  "guessTestName t = t \<longleftrightarrow>
     \<not> prefix ''tests/'' t \<and> \<not> prefix ''pspautotests/tests/'' t \<and> \<not> suffix ''.prx'' t"
proof (cases "prefix ''tests/'' t")
  case True
  then have "length (ChopFront t ''tests/'') < length t"
    by (auto simp: ChopFront_prefix prefix_def)
  moreover have "length (guessTestName t) \<le> length (ChopFront t ''tests/'')"
    unfolding guessTestName_def
    using ChopEnd_length ChopFront_length le_trans by blast
  ultimately have "guessTestName t \<noteq> t" by auto
  with True show ?thesis by simp
next
  case nt: False
  show ?thesis
  proof (cases "prefix ''pspautotests/tests/'' t")
    case True
    then have "length (ChopFront t ''pspautotests/tests/'') < length t"
      by (auto simp: ChopFront_prefix prefix_def)
    moreover have "guessTestName t = ChopEnd (ChopFront t ''pspautotests/tests/'') ''.prx''"
      using nt by (simp add: guessTestName_def ChopFront_prefix)
    ultimately have "guessTestName t \<noteq> t"
      using ChopEnd_length [of "ChopFront t ''pspautotests/tests/''" "''.prx''"] by auto
    with True show ?thesis by simp
  next
    case np: False
    have g: "guessTestName t = ChopEnd t ''.prx''"
      using nt np by (simp add: guessTestName_def ChopFront_prefix)
    show ?thesis
    proof (cases "suffix ''.prx'' t")
      case True
      then have "length (ChopEnd t ''.prx'') < length t"
        by (auto simp: ChopEnd_suffix suffix_def)
      with g have "guessTestName t \<noteq> t" by auto
      with True show ?thesis by simp
    next
      case False
      with g nt np show ?thesis by (simp add: ChopEnd_suffix)
    qed
  qed
qed

text \<open>
  C5 (amended). Deriving the test name strips at most one \<open>tests/\<close> prefix, then at most
  one \<open>pspautotests/tests/\<close> prefix, then at most one \<open>.prx\<close> suffix. Deriving again from
  a derived name gives the same name exactly when the derived name neither starts with
  one of the two prefixes nor ends with the suffix. The two examples of the
  specification hold.
\<close>

theorem guessTestName_idempotent_iff:
  "(guessTestName (guessTestName s) = guessTestName s \<longleftrightarrow>
      \<not> prefix ''tests/'' (guessTestName s) \<and>
      \<not> prefix ''pspautotests/tests/'' (guessTestName s) \<and>
      \<not> suffix ''.prx'' (guessTestName s))
   \<and> guessTestName ''pspautotests/tests/cpu/alu.prx'' = ''cpu/alu''
   \<and> guessTestName ''cpu/alu'' = ''cpu/alu''"
proof -
  have "guessTestName ''pspautotests/tests/cpu/alu.prx'' = ''cpu/alu''"
    by (simp add: guessTestName_def ChopFront_def ChopEnd_def)
  moreover have "guessTestName ''cpu/alu'' = ''cpu/alu''"
    by (simp add: guessTestName_def ChopFront_def ChopEnd_def)
  ultimately show ?thesis
    using guessTestName_fixed [of "guessTestName s"] by blast
qed

theorem guessTestName_idempotent_iff_witness:
  "guessTestName (guessTestName ''tests/cpu/alu.prx'') = guessTestName ''tests/cpu/alu.prx''
   \<and> \<not> prefix ''tests/'' (guessTestName ''tests/cpu/alu.prx'')
   \<and> \<not> prefix ''pspautotests/tests/'' (guessTestName ''tests/cpu/alu.prx'')
   \<and> \<not> suffix ''.prx'' (guessTestName ''tests/cpu/alu.prx'')"
proof -
  have v: "guessTestName ''tests/cpu/alu.prx'' = ''cpu/alu''"
    by (simp add: guessTestName_def ChopFront_def ChopEnd_def)
  have n: "\<not> prefix ''tests/'' ''cpu/alu'' \<and> \<not> prefix ''pspautotests/tests/'' ''cpu/alu''
           \<and> \<not> suffix ''.prx'' ''cpu/alu''"
    by (simp add: suffix_drop_iff)
  show ?thesis
    using guessTestName_idempotent_iff [of "''tests/cpu/alu.prx''"] n unfolding v by simp
qed

text \<open>
  C5 as stated fails: \<open>tests/tests/a\<close> derives to \<open>tests/a\<close>, which derives to \<open>a\<close>.
\<close>

theorem guessTestName_not_idempotent:
  "guessTestName ''tests/tests/a'' = ''tests/a''
   \<and> guessTestName (guessTestName ''tests/tests/a'') = ''a''
   \<and> guessTestName (guessTestName ''tests/tests/a'') \<noteq> guessTestName ''tests/tests/a''"
  by (simp add: guessTestName_def ChopFront_def ChopEnd_def)

section \<open>The quantum, the deadline and the loop\<close>

lemma foldl_append_output:
  "foldl (append_output cp) s ts =
     (if collectEmuLog cp then s\<lparr>output := output s @ concat ts\<rparr>
      else s\<lparr>trace := trace s @ map PassThrough ts\<rparr>)"
  by (induction ts arbitrary: s) (simp_all add: append_output_def)

lemma PSP_RunLoopFor_eq:
  "PSP_RunLoopFor e cp i t s =
     (if collectEmuLog cp
      then s\<lparr>coreState := q_state (quanta e i),
             output := output s @ concat (q_printed (quanta e i)),
             trace := trace s @ [RunLoopFor t]\<rparr>
      else s\<lparr>coreState := q_state (quanta e i),
             trace := trace s @ RunLoopFor t # map PassThrough (q_printed (quanta e i))\<rparr>)"
  by (simp add: PSP_RunLoopFor_def foldl_append_output)

lemma quantum_step_facts:
  "\<exists>tr. trace (quantum_step e cp i s) = trace s @ tr \<and> (\<forall>a\<in>set tr. quiet a)
      \<and> doCompare (quantum_step e cp i s) = doCompare s
      \<and> coreState (quantum_step e cp i s) =
          (if q_state (quanta e i) = CORE_NEXTFRAME then CORE_RUNNING else q_state (quanta e i))"
  by (auto simp: quantum_step_def handle_nextframe_def PSP_RunLoopFor_eq Let_def)

lemma loop_body_eq:
  "loop_body e cp m n d i s = handle_deadline m n d (q_time (quanta e i)) (quantum_step e cp i s)"
  by (simp add: loop_body_def quantum_step_def Let_def)

lemma handle_deadline_timeout:
  "dless d (Finite now) \<Longrightarrow>
   handle_deadline m n d now s =
     s\<lparr>coreState := CORE_POWERDOWN, doCompare := False,
       trace := trace s @ timeout_report m n (output s)\<rparr>"
  by (simp add: handle_deadline_def Core_Stop_def timeout_report_def)

lemma handle_deadline_none: "\<not> dless d (Finite now) \<Longrightarrow> handle_deadline m n d now s = s"
  by (simp add: handle_deadline_def)

lemma continues_iff:
  "coreState (loop_body e cp m n d i s) = CORE_RUNNING \<longleftrightarrow> continues e d i"
proof (cases "dless d (Finite (q_time (quanta e i)))")
  case True
  then show ?thesis
    by (simp add: loop_body_eq continues_def handle_deadline_timeout)
next
  case False
  then show ?thesis
    using quantum_step_facts [of e cp i s]
    by (auto simp: loop_body_eq continues_def handle_deadline_none)
qed

lemma loop_body_continues:
  "continues e d i \<Longrightarrow> loop_body e cp m n d i s = quantum_step e cp i s"
  by (simp add: loop_body_eq continues_def handle_deadline_none)

lemma run_loop_stopped: "coreState s \<noteq> CORE_RUNNING \<Longrightarrow> run_loop e cp m n d i s = Some s"
  by (subst run_loop.simps) simp

lemma run_loop_step:
  "coreState s = CORE_RUNNING \<Longrightarrow>
   run_loop e cp m n d i s = run_loop e cp m n d (Suc i) (loop_body e cp m n d i s)"
  by (subst run_loop.simps) simp

lemma run_loop_terminates:
  "\<not> continues e d (i + k) \<Longrightarrow> \<exists>s'. run_loop e cp m n d i s = Some s'"
proof (induction k arbitrary: i s)
  case 0
  show ?case
  proof (cases "coreState s = CORE_RUNNING")
    case True
    from 0 have "coreState (loop_body e cp m n d i s) \<noteq> CORE_RUNNING"
      by (simp add: continues_iff)
    then show ?thesis using True by (simp add: run_loop_step run_loop_stopped)
  next
    case False
    then show ?thesis by (simp add: run_loop_stopped)
  qed
next
  case (Suc k)
  show ?case
  proof (cases "coreState s = CORE_RUNNING")
    case True
    from Suc.prems have "\<not> continues e d (Suc i + k)" by simp
    from Suc.IH [OF this] obtain s' where
      "run_loop e cp m n d (Suc i) (loop_body e cp m n d i s) = Some s'" by blast
    then show ?thesis using True by (simp add: run_loop_step)
  next
    case False
    then show ?thesis by (simp add: run_loop_stopped)
  qed
qed


lemma run_loop_shape:
  assumes "run_loop e cp m n d i s = Some s'"
  shows "coreState s' \<noteq> CORE_RUNNING \<and>
     (s' = s \<or>
      (coreState s = CORE_RUNNING \<and>
       (\<exists>tr. (\<forall>a\<in>set tr. quiet a) \<and>
          ((doCompare s' = doCompare s \<and> trace s' = trace s @ tr) \<or>
           (\<not> doCompare s' \<and> trace s' = trace s @ tr @ timeout_report m n (output s'))))))"
  using assms
proof (induction e cp m n d i s s' rule: run_loop.raw_induct)
  case (1 f e cp m n d i s s')
  show ?case
  proof (cases "coreState s = CORE_RUNNING")
    case False
    with 1(2) show ?thesis by simp
  next
    case True
    let ?q = "quantum_step e cp i s"
    let ?b = "loop_body e cp m n d i s"
    obtain tr where tr: "trace ?q = trace s @ tr" "\<forall>a\<in>set tr. quiet a" "doCompare ?q = doCompare s"
      using quantum_step_facts [of e cp i s] by blast
    from True 1(2) have fs: "f e cp m n d (Suc i) ?b = Some s'" by simp
    from True 1(3) have rs: "run_loop e cp m n d (Suc i) ?b = Some s'"
      by (simp add: run_loop_step)
    from 1(1) [OF fs rs] have end': "coreState s' \<noteq> CORE_RUNNING"
      and alt: "s' = ?b \<or> (coreState ?b = CORE_RUNNING \<and>
         (\<exists>tr. (\<forall>a\<in>set tr. quiet a) \<and>
          ((doCompare s' = doCompare ?b \<and> trace s' = trace ?b @ tr) \<or>
           (\<not> doCompare s' \<and> trace s' = trace ?b @ tr @ timeout_report m n (output s')))))"
      by blast+
    from alt have "\<exists>tr. (\<forall>a\<in>set tr. quiet a) \<and>
          ((doCompare s' = doCompare s \<and> trace s' = trace s @ tr) \<or>
           (\<not> doCompare s' \<and> trace s' = trace s @ tr @ timeout_report m n (output s')))"
    proof
      assume eq: "s' = ?b"
      show ?thesis
      proof (cases "dless d (Finite (q_time (quanta e i)))")
        case True
        then have "?b = ?q\<lparr>coreState := CORE_POWERDOWN, doCompare := False,
            trace := trace ?q @ timeout_report m n (output ?q)\<rparr>"
          by (simp add: loop_body_eq handle_deadline_timeout)
        then have "\<not> doCompare s'" "trace s' = trace s @ tr @ timeout_report m n (output s')"
          using eq tr by simp_all
        then show ?thesis using tr(2) by blast
      next
        case False
        then have "?b = ?q" by (simp add: loop_body_eq handle_deadline_none)
        then have "doCompare s' = doCompare s" "trace s' = trace s @ tr @ []"
          using eq tr by simp_all
        then show ?thesis using tr(2) by auto
      qed
    next
      assume a: "coreState ?b = CORE_RUNNING \<and>
         (\<exists>tr. (\<forall>a\<in>set tr. quiet a) \<and>
          ((doCompare s' = doCompare ?b \<and> trace s' = trace ?b @ tr) \<or>
           (\<not> doCompare s' \<and> trace s' = trace ?b @ tr @ timeout_report m n (output s'))))"
      then have "continues e d i" by (simp add: continues_iff)
      then have bq: "?b = ?q" by (rule loop_body_continues)
      from a obtain tr' where tr': "\<forall>a\<in>set tr'. quiet a"
        "(doCompare s' = doCompare ?b \<and> trace s' = trace ?b @ tr') \<or>
           (\<not> doCompare s' \<and> trace s' = trace ?b @ tr' @ timeout_report m n (output s'))"
        by blast
      have "(doCompare s' = doCompare s \<and> trace s' = trace s @ (tr @ tr')) \<or>
           (\<not> doCompare s' \<and> trace s' = trace s @ (tr @ tr') @ timeout_report m n (output s'))"
        using tr'(2) bq tr by auto
      moreover have "\<forall>a\<in>set (tr @ tr'). quiet a" using tr(2) tr'(1) by auto
      ultimately show ?thesis by blast
    qed
    with end' True show ?thesis by blast
  qed
qed (rule assms)

section \<open>The run as a whole\<close>

lemma events_append: "events (xs @ ys) = events xs @ events ys"
  by (induction xs rule: events.induct) simp_all

lemma events_quiet: "\<forall>a\<in>set tr. quiet a \<Longrightarrow> events tr = []"
  by (induction tr rule: events.induct) simp_all

lemma events_TeamCityPrint: "events (TeamCityPrint m ev) = (if m then [ev] else [])"
  by (simp add: TeamCityPrint_def)


lemma quiet_not_cleanup: "quiet a \<Longrightarrow> \<not> cleanup a"
  by (cases a) simp_all



lemma filter_cleanup_quiet: "\<forall>a\<in>set tr. quiet a \<Longrightarrow> filter cleanup tr = []"
  by (induction tr) (auto dest: quiet_not_cleanup)


lemma main_usage:
  "parse_args (strtod e) args = Inl reason \<Longrightarrow>
   main e p args = Some \<lparr>exit_code = 1, actions = [PrintUsage p reason], captured = []\<rparr>"
  by (simp add: main_def)

lemma main_parsed: "parse_args (strtod e) args = Inr (v, b) \<Longrightarrow> main e p args = run e v b"
  by (simp add: main_def)

lemma run_boot_failed: "\<not> fst (boot_result e v b) \<Longrightarrow> run e v b = Some (boot_failed e v b)"
  by (simp add: run_def)

lemma run_booted:
  assumes "fst (boot_result e v b)" and "run e v b = Some r"
  shows "\<exists>s' tr. r = finish e v b s' \<and> (\<forall>a\<in>set tr. quiet a) \<and>
           ((doCompare s' \<and> trace s' = trace (loop_start e v b) @ tr) \<or>
            (\<not> doCompare s' \<and>
             trace s' = trace (loop_start e v b) @ tr
                        @ timeout_report (teamCityMode v) (teamCityName v b) (output s')))"
proof -
  from assms obtain s' where
    l: "run_loop e (boot_parameter e v b) (teamCityMode v) (teamCityName v b)
          (deadline_of (time_start e) (timeout v)) 0 (loop_start e v b) = Some s'"
    and r: "r = finish e v b s'"
    by (auto simp: run_def split: option.splits)
  have s0: "coreState (loop_start e v b) = CORE_RUNNING" "doCompare (loop_start e v b)"
    by (simp_all add: loop_start_def)
  from run_loop_shape [OF l] s0 obtain tr where
    "\<forall>a\<in>set tr. quiet a"
    "(doCompare s' \<and> trace s' = trace (loop_start e v b) @ tr) \<or>
            (\<not> doCompare s' \<and>
             trace s' = trace (loop_start e v b) @ tr
                        @ timeout_report (teamCityMode v) (teamCityName v b) (output s'))"
    by auto
  with r show ?thesis by blast
qed


lemma events_start:
  "events (trace (loop_start e v b)) =
     (if teamCityMode v then [testStarted (teamCityName v b)] else [])"
  by (simp add: loop_start_def host_trace_def events_append events_TeamCityPrint
      split: option.splits)

lemma events_report:
  "events (timeout_report m n buf) = (if m then [testFailed n ''Test timeout''] else [])"
  by (simp add: timeout_report_def events_append events_TeamCityPrint)

lemma events_boot_failed:
  "events (actions (boot_failed e v b)) =
     (if teamCityMode v then [testIgnored (teamCityName v b) ''PRX/ELF missing''] else [])"
  by (simp add: boot_failed_def host_trace_def events_append events_TeamCityPrint)

lemma events_compare:
  "events (CompareOutput_call e m n b text) =
     (if m \<and> verdict (compare e b text) \<noteq> Pass
      then [testFailed n (diagnostic (compare e b text))] else [])"
  by (simp add: CompareOutput_call_def events_TeamCityPrint)

lemma filter_cleanup_compare: "filter cleanup (CompareOutput_call e m n b text) = []"
  by (simp add: CompareOutput_call_def TeamCityPrint_def)

lemma filter_runs_compare: "filter runs (CompareOutput_call e m n b text) = []"
  by (simp add: CompareOutput_call_def TeamCityPrint_def)

lemma CoreStop_compare: "CoreStop \<notin> set (CompareOutput_call e m n b text)"
  by (simp add: CompareOutput_call_def TeamCityPrint_def)

lemma events_finish:
  "events (actions (finish e v b s)) =
     events (trace s)
     @ (if autoCompare v \<and> doCompare s
        then events (CompareOutput_call e (teamCityMode v) (teamCityName v b) b (output s))
        else [])
     @ (if teamCityMode v then [testFinished (teamCityName v b)] else [])"
  by (simp add: finish_def events_append events_TeamCityPrint)

lemma events_after_boot:
  assumes "fst (boot_result e v b)" and "run e v b = Some r"
  shows "exit_code r = 0 \<and>
         (\<exists>failed. (failed = [] \<or> (\<exists>msg. failed = [testFailed (teamCityName v b) msg]))
            \<and> events (actions r) =
                (if teamCityMode v
                 then [testStarted (teamCityName v b)] @ failed
                      @ [testFinished (teamCityName v b)]
                 else []))"
proof -
  from run_booted [OF assms] obtain s' tr where
    r: "r = finish e v b s'" and q: "\<forall>a\<in>set tr. quiet a" and
    alt: "(doCompare s' \<and> trace s' = trace (loop_start e v b) @ tr) \<or>
            (\<not> doCompare s' \<and>
             trace s' = trace (loop_start e v b) @ tr
                        @ timeout_report (teamCityMode v) (teamCityName v b) (output s'))"
    by blast
  let ?n = "teamCityName v b"
  let ?c = "compare e b (output s')"
  have x: "exit_code r = 0" using r by (simp add: finish_def)
  from alt have "\<exists>failed. (failed = [] \<or> (\<exists>msg. failed = [testFailed ?n msg]))
                 \<and> events (actions r) =
                     (if teamCityMode v
                      then [testStarted ?n] @ failed @ [testFinished ?n]
                      else [])"
  proof
    assume c: "doCompare s' \<and> trace s' = trace (loop_start e v b) @ tr"
    show ?thesis
    proof (cases "autoCompare v \<and> verdict ?c \<noteq> Pass")
      case True
      with c have "events (actions r) =
          (if teamCityMode v
           then [testStarted ?n] @ [testFailed ?n (diagnostic ?c)] @ [testFinished ?n] else [])"
        using r q
        by (simp add: events_finish events_append events_quiet events_start events_compare)
      then show ?thesis by blast
    next
      case False
      with c have "events (actions r) =
          (if teamCityMode v then [testStarted ?n] @ [] @ [testFinished ?n] else [])"
        using r q
        by (auto simp: events_finish events_append events_quiet events_start events_compare)
      then show ?thesis by blast
    qed
  next
    assume "\<not> doCompare s' \<and>
             trace s' = trace (loop_start e v b) @ tr
                        @ timeout_report (teamCityMode v) ?n (output s')"
    then have "events (actions r) =
        (if teamCityMode v then [testStarted ?n] @ [testFailed ?n ''Test timeout'']
                                @ [testFinished ?n] else [])"
      using r q
      by (simp add: events_finish events_append events_quiet events_start events_report)
    then show ?thesis by blast
  qed
  with x show ?thesis by blast
qed

lemma run_terminates:
  assumes "fst (boot_result e v b)"
    and "\<not> continues e (deadline_of (time_start e) (timeout v)) k"
  shows "\<exists>r. run e v b = Some r"
proof -
  from run_loop_terminates [of e _ 0 k, simplified, OF assms(2)]
  obtain s' where "run_loop e (boot_parameter e v b) (teamCityMode v) (teamCityName v b)
          (deadline_of (time_start e) (timeout v)) 0 (loop_start e v b) = Some s'"
    by blast
  with assms(1) show ?thesis by (simp add: run_def)
qed

lemma filter_cleanup_start: "filter cleanup (trace (loop_start e v b)) = []"
  by (simp add: loop_start_def host_trace_def TeamCityPrint_def split: option.splits)

lemma filter_cleanup_report: "filter cleanup (timeout_report m n buf) = []"
  by (simp add: timeout_report_def TeamCityPrint_def)

lemma filter_cleanup_finish:
  "filter cleanup (actions (finish e v b s)) = filter cleanup (trace s) @ [ShutdownGL, PSP_Shutdown]"
  by (simp add: finish_def TeamCityPrint_def filter_cleanup_compare)




text \<open>
  Two completed runs with \<open>--compare\<close> and the protocol enabled: when the comparison
  passes the events are Started and Finished, and when it fails the Failed event with
  the comparison's diagnostic stands between them.
\<close>

lemma comparison_events:
  "map_option (events \<circ> actions)
     (main (world True True two_frames) ''headless'' [''tests/cpu/alu.prx'', ''--teamcity'', ''-c''])
     = Some [testStarted ''cpu/alu'', testFinished ''cpu/alu'']
   \<and> map_option (events \<circ> actions)
     (main (world True True one_line) ''headless'' [''tests/cpu/alu.prx'', ''--teamcity'', ''-c''])
     = Some [testStarted ''cpu/alu'',
             testFailed ''cpu/alu'' ''Output different from expected file'',
             testFinished ''cpu/alu'']"
  by code_simp

section \<open>Boot failure\<close>

text \<open>
  C1 (amended). When \<open>PSP_Init\<close> fails, the process exits with code 1; with the reporting
  protocol enabled its only test event is Ignored, and without it there is none: no
  Started event and no Finished event on this path. When the boot succeeds and the loop
  ends, the events are, with the protocol enabled, Started first and exactly one Finished
  event, which is the last, with at most one Failed event between them.
\<close>

theorem boot_failure_events:
  assumes "parse_args (strtod e) args = Inr (v, b)"
  shows "(\<not> fst (boot_result e v b) \<longrightarrow>
           (\<exists>r. main e p args = Some r \<and> exit_code r = 1 \<and>
              events (actions r) =
                (if teamCityMode v then [testIgnored (teamCityName v b) ''PRX/ELF missing'']
                 else [])))
       \<and> (fst (boot_result e v b) \<longrightarrow>
           (\<forall>r. main e p args = Some r \<longrightarrow>
              (\<exists>failed. (failed = [] \<or> (\<exists>msg. failed = [testFailed (teamCityName v b) msg]))
                 \<and> events (actions r) =
                     (if teamCityMode v
                      then [testStarted (teamCityName v b)] @ failed
                           @ [testFinished (teamCityName v b)]
                      else []))))"
proof (intro conjI impI allI)
  assume "\<not> fst (boot_result e v b)"
  then have "main e p args = Some (boot_failed e v b)"
    using assms by (simp add: main_parsed run_boot_failed)
  moreover have "exit_code (boot_failed e v b) = 1" by (simp add: boot_failed_def)
  ultimately show "\<exists>r. main e p args = Some r \<and> exit_code r = 1 \<and>
              events (actions r) =
                (if teamCityMode v then [testIgnored (teamCityName v b) ''PRX/ELF missing'']
                 else [])"
    using events_boot_failed by blast
next
  fix r
  assume ok: "fst (boot_result e v b)" and m: "main e p args = Some r"
  from m assms have "run e v b = Some r" by (simp add: main_parsed)
  from events_after_boot [OF ok this]
  show "\<exists>failed. (failed = [] \<or> (\<exists>msg. failed = [testFailed (teamCityName v b) msg]))
                 \<and> events (actions r) =
                     (if teamCityMode v
                      then [testStarted (teamCityName v b)] @ failed
                           @ [testFinished (teamCityName v b)]
                      else [])"
    by (rule conjunct2)
qed

theorem boot_failure_events_witness:
  "parse_args (strtod (world True False two_frames)) args_teamcity
     = Inr (locals_teamcity, ''tests/cpu/alu.prx'')
   \<and> \<not> fst (boot_result (world True False two_frames) locals_teamcity ''tests/cpu/alu.prx'')
   \<and> (\<exists>r. main (world True False two_frames) ''headless'' args_teamcity = Some r
          \<and> exit_code r = 1
          \<and> events (actions r) = [testIgnored ''cpu/alu'' ''PRX/ELF missing''])
   \<and> parse_args (strtod (world True True two_frames)) args_teamcity
     = Inr (locals_teamcity, ''tests/cpu/alu.prx'')
   \<and> fst (boot_result (world True True two_frames) locals_teamcity ''tests/cpu/alu.prx'')
   \<and> (\<exists>r failed. main (world True True two_frames) ''headless'' args_teamcity = Some r
          \<and> (failed = [] \<or> (\<exists>msg. failed = [testFailed ''cpu/alu'' msg]))
          \<and> events (actions r) = [testStarted ''cpu/alu''] @ failed @ [testFinished ''cpu/alu''])"
proof -
  let ?b = "''tests/cpu/alu.prx''"
  have p1: "parse_args (strtod (world True False two_frames)) args_teamcity
              = Inr (locals_teamcity, ?b)"
    by code_simp
  have p2: "parse_args (strtod (world True True two_frames)) args_teamcity
              = Inr (locals_teamcity, ?b)"
    by code_simp
  have nb: "\<not> fst (boot_result (world True False two_frames) locals_teamcity ?b)"
    by code_simp
  have ok: "fst (boot_result (world True True two_frames) locals_teamcity ?b)"
    by code_simp
  have tm: "teamCityMode locals_teamcity" and nm: "teamCityName locals_teamcity ?b = ''cpu/alu''"
    by code_simp+
  have c1: "\<exists>r. main (world True False two_frames) ''headless'' args_teamcity = Some r
          \<and> exit_code r = 1
          \<and> events (actions r) = [testIgnored ''cpu/alu'' ''PRX/ELF missing'']"
    using boot_failure_events [OF p1, of "''headless''"] nb tm nm by simp
  have "main (world True True two_frames) ''headless'' args_teamcity \<noteq> None"
    by code_simp
  then obtain r where r: "main (world True True two_frames) ''headless'' args_teamcity = Some r"
    by blast
  have "\<exists>failed. (failed = [] \<or> (\<exists>msg. failed = [testFailed ''cpu/alu'' msg]))
          \<and> events (actions r) = [testStarted ''cpu/alu''] @ failed @ [testFinished ''cpu/alu'']"
    using boot_failure_events [OF p2, of "''headless''"] ok r tm nm by simp
  then obtain failed where
    f: "failed = [] \<or> (\<exists>msg. failed = [testFailed ''cpu/alu'' msg])"
       "events (actions r) = [testStarted ''cpu/alu''] @ failed @ [testFinished ''cpu/alu'']"
    by (elim exE conjE)
  from r f have c2: "\<exists>r failed. main (world True True two_frames) ''headless'' args_teamcity = Some r
          \<and> (failed = [] \<or> (\<exists>msg. failed = [testFailed ''cpu/alu'' msg]))
          \<and> events (actions r) = [testStarted ''cpu/alu''] @ failed @ [testFinished ''cpu/alu'']"
    by (intro exI conjI)
  from p1 nb c1 p2 ok c2 show ?thesis by (intro conjI)
qed

text \<open>
  C1 as stated fails: with the protocol enabled and a boot that fails, the events of the
  process are the Ignored event alone, and no Finished event follows it.
\<close>

theorem boot_failure_no_Finished:
  "map_option (events \<circ> actions)
     (main (world True False two_frames) ''headless'' [''tests/cpu/alu.prx'', ''--teamcity''])
     = Some [testIgnored ''cpu/alu'' ''PRX/ELF missing'']
   \<and> map_option exit_code
     (main (world True False two_frames) ''headless'' [''tests/cpu/alu.prx'', ''--teamcity''])
     = Some 1"
  by code_simp

section \<open>Cleanup\<close>

text \<open>
  C2 (amended). On every exit path of a run whose boot succeeded (the timeout and the
  completion), the graphics are released (\<open>ShutdownGL\<close>) and the core is shut down
  (\<open>PSP_Shutdown\<close>), each exactly once, the graphics first; and the process does exit
  as soon as some turn of the loop does not go on to the next.
\<close>

theorem cleanup_once_after_boot:
  assumes "parse_args (strtod e) args = Inr (v, b)" and "fst (boot_result e v b)"
  shows "(main e p args = Some r \<longrightarrow> filter cleanup (actions r) = [ShutdownGL, PSP_Shutdown])
       \<and> (\<not> continues e (deadline_of (time_start e) (timeout v)) k \<longrightarrow>
            (\<exists>r'. main e p args = Some r'))"
proof (intro conjI impI)
  assume "main e p args = Some r"
  with assms(1) have "run e v b = Some r" by (simp add: main_parsed)
  from run_booted [OF assms(2) this] obtain s' tr where
    r: "r = finish e v b s'" and q: "\<forall>a\<in>set tr. quiet a" and
    alt: "(doCompare s' \<and> trace s' = trace (loop_start e v b) @ tr) \<or>
            (\<not> doCompare s' \<and>
             trace s' = trace (loop_start e v b) @ tr
                        @ timeout_report (teamCityMode v) (teamCityName v b) (output s'))"
    by blast
  from alt have "filter cleanup (trace s') = []"
    using q by (auto simp: filter_cleanup_start filter_cleanup_report filter_cleanup_quiet)
  with r show "filter cleanup (actions r) = [ShutdownGL, PSP_Shutdown]"
    by (simp add: filter_cleanup_finish)
next
  assume "\<not> continues e (deadline_of (time_start e) (timeout v)) k"
  from run_terminates [OF assms(2) this] assms(1)
  show "\<exists>r'. main e p args = Some r'" by (simp add: main_parsed)
qed

theorem cleanup_once_after_boot_witness:
  "parse_args (strtod (world True True two_frames)) args_teamcity
     = Inr (locals_teamcity, ''tests/cpu/alu.prx'')
   \<and> fst (boot_result (world True True two_frames) locals_teamcity ''tests/cpu/alu.prx'')
   \<and> \<not> continues (world True True two_frames)
         (deadline_of (time_start (world True True two_frames)) (timeout locals_teamcity)) 2
   \<and> (\<exists>r. main (world True True two_frames) ''headless'' args_teamcity = Some r
          \<and> filter cleanup (actions r) = [ShutdownGL, PSP_Shutdown])"
proof -
  let ?b = "''tests/cpu/alu.prx''" and ?w = "world True True two_frames"
  have p: "parse_args (strtod ?w) args_teamcity = Inr (locals_teamcity, ?b)"
    by code_simp
  have ok: "fst (boot_result ?w locals_teamcity ?b)"
    by code_simp
  have nc: "\<not> continues ?w (deadline_of (time_start ?w) (timeout locals_teamcity)) 2"
    by code_simp
  from cleanup_once_after_boot [OF p ok, of "''headless''" _ 2] nc
  obtain r where r: "main ?w ''headless'' args_teamcity = Some r"
    by blast
  with cleanup_once_after_boot [OF p ok, of "''headless''" r 2]
  have "filter cleanup (actions r) = [ShutdownGL, PSP_Shutdown]"
    by blast
  with r p ok nc show ?thesis by blast
qed

text \<open>
  C2 as stated fails on the path of the failed boot: \<open>main\<close> returns at line 295, before
  the calls of lines 332 and 333.
\<close>

theorem boot_failure_no_cleanup:
  "map_option (filter cleanup \<circ> actions)
     (main (world True False two_frames) ''headless'' [''tests/cpu/alu.prx'', ''--teamcity''])
     = Some []"
  by code_simp

section \<open>Timeout\<close>



section \<open>Frame swap\<close>

text \<open>
  C8 (amended). Whenever the quantum of a turn leaves the state asking for a frame
  (\<open>CORE_NEXTFRAME\<close>), \<open>main\<close> first sets the state back to running and then has the
  host swap the buffers, once; in a turn that does not ask for a frame no swap is made.
\<close>

theorem swap_after_resume:
  "(q_state (quanta e i) = CORE_NEXTFRAME \<longrightarrow>
      (\<exists>pre post. trace (loop_body e cp m n d i s)
                     = trace s @ pre @ [SetCoreState CORE_RUNNING, SwapBuffers] @ post
         \<and> SwapBuffers \<notin> set pre \<and> SetCoreState CORE_RUNNING \<notin> set pre
         \<and> SwapBuffers \<notin> set post \<and> SetCoreState CORE_RUNNING \<notin> set post))
   \<and> (q_state (quanta e i) \<noteq> CORE_NEXTFRAME \<longrightarrow>
      (\<exists>new. trace (loop_body e cp m n d i s) = trace s @ new \<and> SwapBuffers \<notin> set new))
   \<and> (coreState s0 = CORE_NEXTFRAME \<longrightarrow>
        handle_nextframe s0
          = s0\<lparr>coreState := CORE_RUNNING,
               trace := trace s0 @ [SetCoreState CORE_RUNNING, SwapBuffers]\<rparr>)"
proof (intro conjI impI)
  let ?t = "usToCycles e (1000000 div 10)"
  let ?pre = "RunLoopFor ?t # (if collectEmuLog cp then [] else map PassThrough (q_printed (quanta e i)))"
  let ?post = "if dless d (Finite (q_time (quanta e i)))
               then timeout_report m n (output (quantum_step e cp i s)) else []"
  have np: "SwapBuffers \<notin> set ?pre" "SetCoreState CORE_RUNNING \<notin> set ?pre"
    by auto
  have npo: "SwapBuffers \<notin> set ?post" "SetCoreState CORE_RUNNING \<notin> set ?post"
    by (auto simp: timeout_report_def TeamCityPrint_def)
  have b: "trace (loop_body e cp m n d i s) = trace (quantum_step e cp i s) @ ?post"
    by (simp add: loop_body_eq handle_deadline_def Core_Stop_def timeout_report_def)
  {
    assume nf: "q_state (quanta e i) = CORE_NEXTFRAME"
    then have "trace (quantum_step e cp i s)
                 = trace s @ ?pre @ [SetCoreState CORE_RUNNING, SwapBuffers]"
      by (simp add: quantum_step_def handle_nextframe_def PSP_RunLoopFor_eq Let_def)
    with b have "trace (loop_body e cp m n d i s)
                 = trace s @ ?pre @ [SetCoreState CORE_RUNNING, SwapBuffers] @ ?post"
      by simp
    with np npo
    show "\<exists>pre post. trace (loop_body e cp m n d i s)
                     = trace s @ pre @ [SetCoreState CORE_RUNNING, SwapBuffers] @ post
         \<and> SwapBuffers \<notin> set pre \<and> SetCoreState CORE_RUNNING \<notin> set pre
         \<and> SwapBuffers \<notin> set post \<and> SetCoreState CORE_RUNNING \<notin> set post"
      by blast
  }
  {
    assume "q_state (quanta e i) \<noteq> CORE_NEXTFRAME"
    then have "trace (quantum_step e cp i s) = trace s @ ?pre"
      by (simp add: quantum_step_def handle_nextframe_def PSP_RunLoopFor_eq Let_def)
    with b have "trace (loop_body e cp m n d i s) = trace s @ (?pre @ ?post)"
      by simp
    moreover have "SwapBuffers \<notin> set (?pre @ ?post)"
      using np(1) npo(1) by simp
    ultimately show "\<exists>new. trace (loop_body e cp m n d i s) = trace s @ new
                        \<and> SwapBuffers \<notin> set new"
      by blast
  }
  {
    assume "coreState s0 = CORE_NEXTFRAME"
    then show "handle_nextframe s0
          = s0\<lparr>coreState := CORE_RUNNING,
               trace := trace s0 @ [SetCoreState CORE_RUNNING, SwapBuffers]\<rparr>"
      by (simp add: handle_nextframe_def Let_def)
  }
qed

theorem swap_after_resume_witness:
  "q_state (quanta (world True True two_frames) 0) = CORE_NEXTFRAME
   \<and> (\<exists>pre post.
         trace (loop_body (world True True two_frames) (coreParameter locals_teamcity ''x'' True)
                  True ''t'' PosInf 0 state_running)
           = trace state_running @ pre @ [SetCoreState CORE_RUNNING, SwapBuffers] @ post
         \<and> SwapBuffers \<notin> set pre \<and> SetCoreState CORE_RUNNING \<notin> set pre
         \<and> SwapBuffers \<notin> set post \<and> SetCoreState CORE_RUNNING \<notin> set post)
   \<and> q_state (quanta (world True True two_frames) 2) \<noteq> CORE_NEXTFRAME
   \<and> (\<exists>new.
         trace (loop_body (world True True two_frames) (coreParameter locals_teamcity ''x'' True)
                  True ''t'' PosInf 2 state_running)
           = trace state_running @ new
         \<and> SwapBuffers \<notin> set new)
   \<and> coreState state_nextframe = CORE_NEXTFRAME
   \<and> handle_nextframe state_nextframe
       = state_nextframe\<lparr>coreState := CORE_RUNNING,
           trace := trace state_nextframe @ [SetCoreState CORE_RUNNING, SwapBuffers]\<rparr>"
proof -
  let ?w = "world True True two_frames" and ?cp = "coreParameter locals_teamcity ''x'' True"
  have h1: "q_state (quanta ?w 0) = CORE_NEXTFRAME" by code_simp
  have h2: "q_state (quanta ?w 2) \<noteq> CORE_NEXTFRAME" by code_simp
  have h3: "coreState state_nextframe = CORE_NEXTFRAME" by code_simp
  from swap_after_resume [of ?w 0 ?cp True "''t''" PosInf state_running state_nextframe] h1 h3
  have c1: "\<exists>pre post.
         trace (loop_body ?w ?cp True ''t'' PosInf 0 state_running)
           = trace state_running @ pre @ [SetCoreState CORE_RUNNING, SwapBuffers] @ post
         \<and> SwapBuffers \<notin> set pre \<and> SetCoreState CORE_RUNNING \<notin> set pre
         \<and> SwapBuffers \<notin> set post \<and> SetCoreState CORE_RUNNING \<notin> set post"
    and c3: "handle_nextframe state_nextframe
       = state_nextframe\<lparr>coreState := CORE_RUNNING,
           trace := trace state_nextframe @ [SetCoreState CORE_RUNNING, SwapBuffers]\<rparr>"
    by blast+
  from swap_after_resume [of ?w 2 ?cp True "''t''" PosInf state_running state_nextframe] h2
  have c2: "\<exists>new. trace (loop_body ?w ?cp True ''t'' PosInf 2 state_running)
                     = trace state_running @ new \<and> SwapBuffers \<notin> set new"
    by blast
  from h1 c1 h2 c2 h3 c3 show ?thesis by blast
qed

text \<open>
  C8 as stated fails: from a state asking for a frame, the assignment of the state comes
  before the swap in the trace, not after it.
\<close>

theorem swap_not_before_resume:
  "trace (handle_nextframe state_nextframe)
     = [SetCoreState CORE_RUNNING, SwapBuffers]
   \<and> trace (handle_nextframe state_nextframe)
     \<noteq> [SwapBuffers, SetCoreState CORE_RUNNING]"
  by (simp add: handle_nextframe_def state_nextframe_def Let_def)

section \<open>Captured output\<close>

lemma run_loop_output:
  assumes "run_loop e cp m n d i s = Some s'" and "\<not> collectEmuLog cp"
  shows "output s' = output s"
  using assms
proof (induction e cp m n d i s s' rule: run_loop.raw_induct)
  case (1 f e cp m n d i s s')
  show ?case
  proof (cases "coreState s = CORE_RUNNING")
    case False
    with 1(2) show ?thesis by simp
  next
    case True
    let ?b = "loop_body e cp m n d i s"
    from True 1(2) have fs: "f e cp m n d (Suc i) ?b = Some s'" by simp
    from True 1(3) have rs: "run_loop e cp m n d (Suc i) ?b = Some s'"
      by (simp add: run_loop_step)
    have "output ?b = output s"
      using 1(4)
      by (simp add: loop_body_eq handle_deadline_def Core_Stop_def quantum_step_def
          handle_nextframe_def PSP_RunLoopFor_eq Let_def)
    with 1(1) [OF fs rs 1(4)] show ?thesis by simp
  qed
qed (rule assms)

text \<open>
  C7. Without \<open>--compare\<close> every text the program prints in a quantum goes at once to
  the pass-through destination and \<open>output\<close> is left as it was, so that it is empty at
  the end of every run; with \<open>--compare\<close> the texts are appended to \<open>output\<close> and
  nothing is passed through.
\<close>

theorem capture_only_when_comparing:
  "(\<not> autoCompare v \<longrightarrow>
      PSP_RunLoopFor e (coreParameter v b gl) i t s
        = s\<lparr>coreState := q_state (quanta e i),
            trace := trace s @ RunLoopFor t # map PassThrough (q_printed (quanta e i))\<rparr>)
   \<and> (autoCompare v \<longrightarrow>
      PSP_RunLoopFor e (coreParameter v b gl) i t s
        = s\<lparr>coreState := q_state (quanta e i),
            output := output s @ concat (q_printed (quanta e i)),
            trace := trace s @ [RunLoopFor t]\<rparr>)
   \<and> (parse_args (strtod e) args = Inr (v, b) \<and> main e p args = Some r \<and> \<not> autoCompare v
        \<longrightarrow> captured r = [])"
proof (intro conjI impI)
  assume "\<not> autoCompare v"
  then show "PSP_RunLoopFor e (coreParameter v b gl) i t s
        = s\<lparr>coreState := q_state (quanta e i),
            trace := trace s @ RunLoopFor t # map PassThrough (q_printed (quanta e i))\<rparr>"
    by (simp add: PSP_RunLoopFor_eq coreParameter_def)
next
  assume "autoCompare v"
  then show "PSP_RunLoopFor e (coreParameter v b gl) i t s
        = s\<lparr>coreState := q_state (quanta e i),
            output := output s @ concat (q_printed (quanta e i)),
            trace := trace s @ [RunLoopFor t]\<rparr>"
    by (simp add: PSP_RunLoopFor_eq coreParameter_def)
next
  assume a: "parse_args (strtod e) args = Inr (v, b) \<and> main e p args = Some r \<and> \<not> autoCompare v"
  then have r: "run e v b = Some r" using main_parsed [of e args v b p] by simp
  show "captured r = []"
  proof (cases "fst (boot_result e v b)")
    case False
    with r have "r = boot_failed e v b" by (simp add: run_def)
    then show ?thesis by (simp add: boot_failed_def)
  next
    case True
    with r obtain s' where
      l: "run_loop e (boot_parameter e v b) (teamCityMode v) (teamCityName v b)
          (deadline_of (time_start e) (timeout v)) 0 (loop_start e v b) = Some s'"
      and rf: "r = finish e v b s'"
      by (auto simp: run_def split: option.splits)
    have "\<not> collectEmuLog (boot_parameter e v b)"
      using a by (simp add: boot_parameter_def coreParameter_def)
    from run_loop_output [OF l this] have "output s' = []"
      by (simp add: loop_start_def)
    with rf show ?thesis by (simp add: finish_def)
  qed
qed


theorem capture_only_when_comparing_witness:
  "\<not> autoCompare locals_teamcity
   \<and> PSP_RunLoopFor (world True True two_frames) (coreParameter locals_teamcity ''x'' True)
         0 7 state_running
       = state_running\<lparr>coreState := CORE_NEXTFRAME,
           trace := [RunLoopFor 7, PassThrough ''ok'']\<rparr>
   \<and> autoCompare locals_timeout
   \<and> PSP_RunLoopFor (world True True two_frames) (coreParameter locals_timeout ''x'' True)
         0 7 state_running
       = state_running\<lparr>coreState := CORE_NEXTFRAME, output := ''ok'',
           trace := [RunLoopFor 7]\<rparr>
   \<and> parse_args (strtod (world True True two_frames)) args_teamcity
       = Inr (locals_teamcity, ''tests/cpu/alu.prx'')
   \<and> (\<exists>r. main (world True True two_frames) ''headless'' args_teamcity = Some r
          \<and> captured r = [])"
proof -
  let ?w = "world True True two_frames"
  have n: "\<not> autoCompare locals_teamcity" and y: "autoCompare locals_timeout"
    by code_simp+
  have p: "parse_args (strtod ?w) args_teamcity = Inr (locals_teamcity, ''tests/cpu/alu.prx'')"
    by code_simp
  have q: "q_state (quanta ?w 0) = CORE_NEXTFRAME" "q_printed (quanta ?w 0) = [''ok'']"
    "trace state_running = []" "output state_running = []"
    by code_simp+
  have "main ?w ''headless'' args_teamcity \<noteq> None" by code_simp
  then obtain r where r: "main ?w ''headless'' args_teamcity = Some r" by blast
  from capture_only_when_comparing
         [of locals_teamcity ?w "''tests/cpu/alu.prx''" True 0 7 state_running
             args_teamcity "''headless''" r] n p r q
  have c1: "PSP_RunLoopFor ?w (coreParameter locals_teamcity ''tests/cpu/alu.prx'' True)
              0 7 state_running
            = state_running\<lparr>coreState := CORE_NEXTFRAME,
                trace := [RunLoopFor 7, PassThrough ''ok'']\<rparr>"
    and c3: "captured r = []"
    by simp_all
  have c1': "PSP_RunLoopFor ?w (coreParameter locals_teamcity ''x'' True) 0 7 state_running
            = state_running\<lparr>coreState := CORE_NEXTFRAME,
                trace := [RunLoopFor 7, PassThrough ''ok'']\<rparr>"
    using capture_only_when_comparing
         [of locals_teamcity ?w "''x''" True 0 7 state_running] n q
    by simp
  have c2: "PSP_RunLoopFor ?w (coreParameter locals_timeout ''x'' True) 0 7 state_running
            = state_running\<lparr>coreState := CORE_NEXTFRAME, output := ''ok'',
                trace := [RunLoopFor 7]\<rparr>"
    using capture_only_when_comparing
         [of locals_timeout ?w "''x''" True 0 7 state_running] y q
    by simp
  from n c1' y c2 p r c3 show ?thesis by blast
qed

section \<open>Graphics backend names\<close>

lemma strcasecmp_zero_iff: "strcasecmp a b = 0 \<longleftrightarrow> map tolower a = map tolower b"
  by (induction a b rule: strcasecmp.induct) auto

lemma tolower_gles: "map tolower ''gles'' = ''gles''" "map tolower ''software'' = ''software''"
  "map tolower ''directx9'' = ''directx9''" "map tolower ''null'' = ''null''"
  by (simp_all add: tolower_def)

lemma parse_arg_graphics:
  assumes "\<not> readMount v" and "name \<noteq> []"
  shows "parse_arg sd v (''--graphics='' @ name) =
      (if map tolower name = ''gles'' then Inr (v\<lparr>gpuCore := GPU_GLES\<rparr>)
       else if map tolower name = ''software'' then Inr (v\<lparr>gpuCore := GPU_SOFTWARE\<rparr>)
       else if map tolower name = ''directx9'' then Inr (v\<lparr>gpuCore := GPU_DIRECTX9\<rparr>)
       else if map tolower name = ''null'' then Inr (v\<lparr>gpuCore := GPU_NULL\<rparr>)
       else Inl (Some ''Unknown gpu backend specified after --graphics=''))"
proof -
  have hv: "has_value ''--graphics='' (''--graphics='' @ name)"
    using assms(2) by (simp add: has_value_def)
  have dr: "drop (length ''--graphics='') (''--graphics='' @ name) = name"
    by simp
  have ne: "''--graphics='' @ name \<noteq> ''-m''" "''--graphics='' @ name \<noteq> ''--mount''"
    "''--graphics='' @ name \<noteq> ''-l''" "''--graphics='' @ name \<noteq> ''--log''"
    "''--graphics='' @ name \<noteq> ''-i''" "''--graphics='' @ name \<noteq> ''-j''"
    "''--graphics='' @ name \<noteq> ''-c''" "''--graphics='' @ name \<noteq> ''--compare''"
    by simp_all
  show ?thesis
    unfolding parse_arg_def Let_def
    using assms(1) hv ne
    by (simp only: dr strcasecmp_zero_iff tolower_gles if_True if_False simp_thms)
qed

text \<open>
  C9. An argument \<open>--graphics=NAME\<close> read as an option is matched without regard to
  case: a name that is \<open>gles\<close>, \<open>software\<close>, \<open>directx9\<close> or \<open>null\<close> once its capital
  letters are lowered selects that backend, whatever its capitalisation, and every
  other name ends the program with the usage message.
\<close>

theorem graphics_case_insensitive:
  assumes "\<not> readMount v" and "name \<noteq> []"
  shows "parse_arg sd v (''--graphics='' @ name) =
      (if map tolower name = ''gles'' then Inr (v\<lparr>gpuCore := GPU_GLES\<rparr>)
       else if map tolower name = ''software'' then Inr (v\<lparr>gpuCore := GPU_SOFTWARE\<rparr>)
       else if map tolower name = ''directx9'' then Inr (v\<lparr>gpuCore := GPU_DIRECTX9\<rparr>)
       else if map tolower name = ''null'' then Inr (v\<lparr>gpuCore := GPU_NULL\<rparr>)
       else Inl (Some ''Unknown gpu backend specified after --graphics=''))"
  using assms by (rule parse_arg_graphics)

theorem graphics_case_insensitive_witness:
  "\<not> readMount init_locals \<and> ''GLES'' \<noteq> []
   \<and> parse_arg strtod_table init_locals ''--graphics=GLES''
       = Inr (init_locals\<lparr>gpuCore := GPU_GLES\<rparr>)
   \<and> parse_arg strtod_table init_locals ''--graphics=gles''
       = Inr (init_locals\<lparr>gpuCore := GPU_GLES\<rparr>)
   \<and> parse_arg strtod_table init_locals ''--graphics=DirectX9''
       = Inr (init_locals\<lparr>gpuCore := GPU_DIRECTX9\<rparr>)
   \<and> parse_arg strtod_table init_locals ''--graphics=foo''
       = Inl (Some ''Unknown gpu backend specified after --graphics='')"
proof -
  have r: "\<not> readMount init_locals" by code_simp
  have l: "map tolower ''GLES'' = ''gles''" "map tolower ''gles'' = ''gles''"
    "map tolower ''DirectX9'' = ''directx9''" "map tolower ''foo'' = ''foo''"
    by code_simp+
  have "parse_arg strtod_table init_locals (''--graphics='' @ ''GLES'')
       = Inr (init_locals\<lparr>gpuCore := GPU_GLES\<rparr>)"
    using graphics_case_insensitive [OF r, of "''GLES''" strtod_table] l by simp
  moreover have "parse_arg strtod_table init_locals (''--graphics='' @ ''gles'')
       = Inr (init_locals\<lparr>gpuCore := GPU_GLES\<rparr>)"
    using graphics_case_insensitive [OF r, of "''gles''" strtod_table] l by simp
  moreover have "parse_arg strtod_table init_locals (''--graphics='' @ ''DirectX9'')
       = Inr (init_locals\<lparr>gpuCore := GPU_DIRECTX9\<rparr>)"
    using graphics_case_insensitive [OF r, of "''DirectX9''" strtod_table] l by simp
  moreover have "parse_arg strtod_table init_locals (''--graphics='' @ ''foo'')
       = Inl (Some ''Unknown gpu backend specified after --graphics='')"
    using graphics_case_insensitive [OF r, of "''foo''" strtod_table] l by simp
  ultimately show ?thesis using r by simp
qed

section \<open>Graphics failure\<close>

text \<open>
  C6 (amended). A failure to set up the graphics (\<open>InitGL\<close> returns false) is not a boot
  error: \<open>main\<close> goes on and boots the core with the null backend. When \<open>PSP_Init\<close> then
  succeeds, the run is reported as any other (Started first, Finished last, at most one
  Failed event between them, and no Ignored event) and the exit code is 0. The boot error is the failure of
  \<open>PSP_Init\<close>: it is reported with the Ignored event and the exit code is 1.
\<close>

theorem graphics_failure_falls_back:
  assumes "parse_args (strtod e) args = Inr (v, b)" and "\<not> fst (InitGL e (gpuCore v))"
  shows "cp_gpuCore (boot_parameter e v b) = GPU_NULL
     \<and> (fst (boot_result e v b) \<longrightarrow>
          (\<forall>r. main e p args = Some r \<longrightarrow>
             exit_code r = 0 \<and>
             (\<exists>failed. (failed = [] \<or> (\<exists>msg. failed = [testFailed (teamCityName v b) msg]))
                \<and> events (actions r) =
                    (if teamCityMode v
                     then [testStarted (teamCityName v b)] @ failed
                          @ [testFinished (teamCityName v b)]
                     else []))))
     \<and> (fst (boot_result e v b)
          \<and> \<not> continues e (deadline_of (time_start e) (timeout v)) k \<longrightarrow>
          (\<exists>r. main e p args = Some r))
     \<and> (\<not> fst (boot_result e v b) \<longrightarrow>
          (\<exists>r. main e p args = Some r \<and> exit_code r = 1 \<and>
             events (actions r) =
               (if teamCityMode v then [testIgnored (teamCityName v b) ''PRX/ELF missing'']
                else [])))"
proof (intro conjI impI allI)
  show "cp_gpuCore (boot_parameter e v b) = GPU_NULL"
    using assms(2) by (simp add: boot_parameter_def coreParameter_def)
next
  fix r
  assume ok: "fst (boot_result e v b)" and m: "main e p args = Some r"
  from m assms(1) have "run e v b = Some r" by (simp add: main_parsed)
  from events_after_boot [OF ok this]
  show "exit_code r = 0"
    and "\<exists>failed. (failed = [] \<or> (\<exists>msg. failed = [testFailed (teamCityName v b) msg]))
                \<and> events (actions r) =
                    (if teamCityMode v
                     then [testStarted (teamCityName v b)] @ failed
                          @ [testFinished (teamCityName v b)]
                     else [])"
    by blast+
next
  assume "fst (boot_result e v b) \<and> \<not> continues e (deadline_of (time_start e) (timeout v)) k"
  then show "\<exists>r. main e p args = Some r"
    using run_terminates [of e v b k] assms(1) by (simp add: main_parsed)
next
  assume "\<not> fst (boot_result e v b)"
  then have "main e p args = Some (boot_failed e v b)"
    using assms(1) by (simp add: main_parsed run_boot_failed)
  moreover have "exit_code (boot_failed e v b) = 1" by (simp add: boot_failed_def)
  ultimately show "\<exists>r. main e p args = Some r \<and> exit_code r = 1 \<and>
              events (actions r) =
                (if teamCityMode v then [testIgnored (teamCityName v b) ''PRX/ELF missing'']
                 else [])"
    using events_boot_failed by blast
qed

theorem graphics_failure_falls_back_witness:
  "parse_args (strtod (world False True two_frames)) args_glfail
     = Inr (locals_glfail, ''tests/cpu/alu.prx'')
   \<and> \<not> fst (InitGL (world False True two_frames) (gpuCore locals_glfail))
   \<and> cp_gpuCore (boot_parameter (world False True two_frames) locals_glfail ''tests/cpu/alu.prx'')
       = GPU_NULL
   \<and> fst (boot_result (world False True two_frames) locals_glfail ''tests/cpu/alu.prx'')
   \<and> \<not> continues (world False True two_frames)
         (deadline_of (time_start (world False True two_frames)) (timeout locals_glfail)) 2
   \<and> (\<exists>r failed. main (world False True two_frames) ''headless'' args_glfail = Some r
          \<and> exit_code r = 0
          \<and> (failed = [] \<or> (\<exists>msg. failed = [testFailed ''cpu/alu'' msg]))
          \<and> events (actions r) = [testStarted ''cpu/alu''] @ failed @ [testFinished ''cpu/alu''])
   \<and> parse_args (strtod (world False False two_frames)) args_glfail
     = Inr (locals_glfail, ''tests/cpu/alu.prx'')
   \<and> \<not> fst (InitGL (world False False two_frames) (gpuCore locals_glfail))
   \<and> \<not> fst (boot_result (world False False two_frames) locals_glfail ''tests/cpu/alu.prx'')
   \<and> (\<exists>r. main (world False False two_frames) ''headless'' args_glfail = Some r
          \<and> exit_code r = 1
          \<and> events (actions r) = [testIgnored ''cpu/alu'' ''PRX/ELF missing''])"
proof -
  let ?b = "''tests/cpu/alu.prx''"
  let ?w = "world False True two_frames" and ?w' = "world False False two_frames"
  have p: "parse_args (strtod ?w) args_glfail = Inr (locals_glfail, ?b)"
    and p': "parse_args (strtod ?w') args_glfail = Inr (locals_glfail, ?b)"
    by code_simp+
  have g: "\<not> fst (InitGL ?w (gpuCore locals_glfail))"
    and g': "\<not> fst (InitGL ?w' (gpuCore locals_glfail))"
    by code_simp+
  have ok: "fst (boot_result ?w locals_glfail ?b)"
    and nb: "\<not> fst (boot_result ?w' locals_glfail ?b)"
    by code_simp+
  have nc: "\<not> continues ?w (deadline_of (time_start ?w) (timeout locals_glfail)) 2"
    by code_simp
  have tm: "teamCityMode locals_glfail" and nm: "teamCityName locals_glfail ?b = ''cpu/alu''"
    by code_simp+
  note t = graphics_failure_falls_back [OF p g, of "''headless''" 2]
  from t have c1: "cp_gpuCore (boot_parameter ?w locals_glfail ?b) = GPU_NULL"
    by blast
  from t ok nc obtain r where r: "main ?w ''headless'' args_glfail = Some r"
    by blast
  with t ok tm nm
  have "exit_code r = 0 \<and>
        (\<exists>failed. (failed = [] \<or> (\<exists>msg. failed = [testFailed ''cpu/alu'' msg]))
          \<and> events (actions r) = [testStarted ''cpu/alu''] @ failed @ [testFinished ''cpu/alu''])"
    by simp
  then obtain failed where
    f: "exit_code r = 0" "failed = [] \<or> (\<exists>msg. failed = [testFailed ''cpu/alu'' msg])"
       "events (actions r) = [testStarted ''cpu/alu''] @ failed @ [testFinished ''cpu/alu'']"
    by (elim exE conjE)
  from r f have c2: "\<exists>r failed. main ?w ''headless'' args_glfail = Some r
          \<and> exit_code r = 0
          \<and> (failed = [] \<or> (\<exists>msg. failed = [testFailed ''cpu/alu'' msg]))
          \<and> events (actions r) = [testStarted ''cpu/alu''] @ failed @ [testFinished ''cpu/alu'']"
    by (intro exI conjI)
  from graphics_failure_falls_back [OF p' g', of "''headless''" 2] nb tm nm
  have c3: "\<exists>r. main ?w' ''headless'' args_glfail = Some r
          \<and> exit_code r = 1
          \<and> events (actions r) = [testIgnored ''cpu/alu'' ''PRX/ELF missing'']"
    by simp
  from p g c1 ok nc c2 p' g' nb c3 show ?thesis by (intro conjI)
qed

text \<open>
  C6 as stated fails: with graphics that cannot be set up and a boot that succeeds, the
  test is started and finished, no Ignored event is emitted and the exit code is 0.
\<close>

theorem graphics_failure_not_ignored:
  "\<not> fst (InitGL (world False True two_frames) GPU_GLES)
   \<and> map_option exit_code
       (main (world False True two_frames) ''headless''
          [''tests/cpu/alu.prx'', ''--teamcity'', ''--graphics=gles''])
     = Some 0
   \<and> map_option (events \<circ> actions)
       (main (world False True two_frames) ''headless''
          [''tests/cpu/alu.prx'', ''--teamcity'', ''--graphics=gles''])
     = Some [testStarted ''cpu/alu'', testFinished ''cpu/alu'']"
  by code_simp

section \<open>The timeout option\<close>

lemma dless_deadline_zero: "dless (deadline_of now (Finite 0)) (Finite t) \<longleftrightarrow> now < t"
  by (simp add: deadline_of_def)

lemma deadline_PosInf_iff:
  "deadline_of now tmo = PosInf \<longleftrightarrow> dless tmo (Finite 0) \<or> tmo = PosInf"
  by (cases tmo) (simp_all add: deadline_of_def)

lemma first_quantum_timeout:
  assumes "dless d (Finite (q_time (quanta e 0)))" and "coreState s = CORE_RUNNING"
  shows "run_loop e cp m n d 0 s = Some (loop_body e cp m n d 0 s)"
proof -
  have "\<not> continues e d 0" using assms(1) by (simp add: continues_def)
  then have "coreState (loop_body e cp m n d 0 s) \<noteq> CORE_RUNNING"
    by (simp add: continues_iff)
  with assms(2) show ?thesis by (simp add: run_loop_step run_loop_stopped)
qed

lemma filter_runs_body:
  "dless d (Finite (q_time (quanta e i))) \<Longrightarrow>
   filter runs (trace (loop_body e cp m n d i s))
     = filter runs (trace s) @ [RunLoopFor (usToCycles e (1000000 div 10))]"
  by (simp add: loop_body_eq handle_deadline_timeout quantum_step_def handle_nextframe_def
      PSP_RunLoopFor_eq timeout_report_def TeamCityPrint_def Let_def filter_map comp_def)

lemma CoreStop_body:
  "dless d (Finite (q_time (quanta e i))) \<Longrightarrow> CoreStop \<in> set (trace (loop_body e cp m n d i s))"
  by (simp add: loop_body_eq handle_deadline_timeout timeout_report_def)

lemma filter_runs_start: "filter runs (trace (loop_start e v b)) = []"
  by (simp add: loop_start_def host_trace_def TeamCityPrint_def split: option.splits)

text \<open>
  C10 (amended). An argument \<open>--timeout=V\<close> read as an option, with \<open>V\<close> not empty and
  converted to 0 by \<open>strtod\<close> (as text that is no number is), sets the timeout to 0. The
  deadline is then the time at the start of the run: when the clock read after the first
  quantum is later than that, the run times out there, after exactly one quantum, and
  the process exits with code 0. Without the option the timeout is -1. The deadline is
  infinite exactly when the timeout is negative or is itself infinite.
\<close>

theorem timeout_unparsed_value:
  "(\<not> readMount v \<and> val \<noteq> [] \<and> sd val = Finite 0 \<longrightarrow>
      parse_arg sd v (''--timeout='' @ val) = Inr (v\<lparr>timeout := Finite 0\<rparr>))
   \<and> deadline_of now (Finite 0) = Finite now
   \<and> (parse_args (strtod e) args = Inr (w, b) \<and> timeout w = Finite 0
       \<and> fst (boot_result e w b) \<and> time_start e < q_time (quanta e 0) \<longrightarrow>
       (\<exists>r. main e p args = Some r \<and> exit_code r = 0 \<and> CoreStop \<in> set (actions r)
          \<and> filter runs (actions r) = [RunLoopFor (usToCycles e (1000000 div 10))]))
   \<and> timeout init_locals = Finite (- 1)
   \<and> (deadline_of now tmo = PosInf \<longleftrightarrow> dless tmo (Finite 0) \<or> tmo = PosInf)"
proof (intro conjI impI)
  assume a: "\<not> readMount v \<and> val \<noteq> [] \<and> sd val = Finite 0"
  then have hv: "has_value ''--timeout='' (''--timeout='' @ val)"
    by (simp add: has_value_def)
  have nv: "\<not> has_value ''--graphics='' (''--timeout='' @ val)"
    "\<not> has_value ''--screenshot='' (''--timeout='' @ val)"
    by (simp_all add: has_value_def)
  have dr: "drop (length ''--timeout='') (''--timeout='' @ val) = val" by simp
  have ne: "''--timeout='' @ val \<noteq> ''-m''" "''--timeout='' @ val \<noteq> ''--mount''"
    "''--timeout='' @ val \<noteq> ''-l''" "''--timeout='' @ val \<noteq> ''--log''"
    "''--timeout='' @ val \<noteq> ''-i''" "''--timeout='' @ val \<noteq> ''-j''"
    "''--timeout='' @ val \<noteq> ''-c''" "''--timeout='' @ val \<noteq> ''--compare''"
    "''--timeout='' @ val \<noteq> ''--graphics''"
    by simp_all
  show "parse_arg sd v (''--timeout='' @ val) = Inr (v\<lparr>timeout := Finite 0\<rparr>)"
    unfolding parse_arg_def
    using a hv nv ne by (simp only: dr if_True if_False simp_thms)
next
  show "deadline_of now (Finite 0) = Finite now" by (simp add: deadline_of_def)
next
  assume a: "parse_args (strtod e) args = Inr (w, b) \<and> timeout w = Finite 0
       \<and> fst (boot_result e w b) \<and> time_start e < q_time (quanta e 0)"
  let ?d = "deadline_of (time_start e) (timeout w)"
  let ?s0 = "loop_start e w b"
  let ?b = "loop_body e (boot_parameter e w b) (teamCityMode w) (teamCityName w b) ?d 0 ?s0"
  from a have dl: "dless ?d (Finite (q_time (quanta e 0)))"
    by (simp add: dless_deadline_zero)
  have "coreState ?s0 = CORE_RUNNING" by (simp add: loop_start_def)
  from first_quantum_timeout [OF dl this]
  have "run e w b = Some (finish e w b ?b)" using a by (simp add: run_def)
  then have "main e p args = Some (finish e w b ?b)" using a main_parsed [of e args w b p] by simp
  moreover have "exit_code (finish e w b ?b) = 0" by (simp add: finish_def)
  moreover have "CoreStop \<in> set (actions (finish e w b ?b))"
    using CoreStop_body [OF dl] by (simp add: finish_def)
  moreover have "filter runs (actions (finish e w b ?b))
                   = [RunLoopFor (usToCycles e (1000000 div 10))]"
    using filter_runs_body [OF dl]
    by (simp add: finish_def TeamCityPrint_def filter_runs_start filter_runs_compare)
  ultimately show "\<exists>r. main e p args = Some r \<and> exit_code r = 0 \<and> CoreStop \<in> set (actions r)
          \<and> filter runs (actions r) = [RunLoopFor (usToCycles e (1000000 div 10))]"
    by blast
next
  show "timeout init_locals = Finite (- 1)" by (simp add: init_locals_def)
next
  show "(deadline_of now tmo = PosInf) = (dless tmo (Finite 0) \<or> tmo = PosInf)"
    by (rule deadline_PosInf_iff)
qed

theorem timeout_unparsed_value_witness:
  "\<not> readMount locals_boot \<and> ''abc'' \<noteq> [] \<and> strtod_table ''abc'' = Finite 0
   \<and> parse_arg strtod_table locals_boot ''--timeout=abc''
       = Inr (locals_boot\<lparr>timeout := Finite 0\<rparr>)
   \<and> parse_args (strtod (world True True never_ends)) args_unparsed
       = Inr (locals_unparsed, ''x.elf'')
   \<and> timeout locals_unparsed = Finite 0
   \<and> fst (boot_result (world True True never_ends) locals_unparsed ''x.elf'')
   \<and> time_start (world True True never_ends) < q_time (quanta (world True True never_ends) 0)
   \<and> (\<exists>r. main (world True True never_ends) ''headless'' args_unparsed = Some r
          \<and> exit_code r = 0 \<and> CoreStop \<in> set (actions r)
          \<and> filter runs (actions r) = [RunLoopFor 22200000])"
proof -
  let ?w = "world True True never_ends"
  have h1: "\<not> readMount locals_boot" "''abc'' \<noteq> []" "strtod_table ''abc'' = Finite 0"
    by code_simp+
  have p: "parse_args (strtod ?w) args_unparsed = Inr (locals_unparsed, ''x.elf'')"
    by code_simp
  have z: "timeout locals_unparsed = Finite 0" by code_simp
  have ok: "fst (boot_result ?w locals_unparsed ''x.elf'')" by code_simp
  have cl: "time_start ?w < q_time (quanta ?w 0)" by code_simp
  have u: "usToCycles ?w (1000000 div 10) = 22200000" by code_simp
  from timeout_unparsed_value [of locals_boot "''abc''" strtod_table] h1
  have c1: "parse_arg strtod_table locals_boot ''--timeout=abc''
              = Inr (locals_boot\<lparr>timeout := Finite 0\<rparr>)"
    by simp
  from timeout_unparsed_value [of _ _ _ _ ?w args_unparsed locals_unparsed "''x.elf''" "''headless''"]
    p z ok cl u
  have c2: "\<exists>r. main ?w ''headless'' args_unparsed = Some r
          \<and> exit_code r = 0 \<and> CoreStop \<in> set (actions r)
          \<and> filter runs (actions r) = [RunLoopFor 22200000]"
    by simp
  from h1 c1 p z ok cl c2 show ?thesis by blast
qed

text \<open>
  C10 as stated fails at an empty value: \<open>--timeout=\<close> is not read as the timeout
  option. After a boot file it ends the program with the usage message; as the first
  argument it is taken for the boot file, and the timeout stays -1.
\<close>

theorem timeout_empty_value:
  "main (world True True never_ends) ''headless'' [''x.elf'', ''--timeout='']
     = Some \<lparr>exit_code = 1,
             actions = [PrintUsage ''headless'' (Some ''Unexpected argument --timeout='')],
             captured = []\<rparr>
   \<and> parse_args strtod_table [''--timeout='']
     = Inr (init_locals\<lparr>bootFilename := Some ''--timeout=''\<rparr>, ''--timeout='')
   \<and> timeout (init_locals\<lparr>bootFilename := Some ''--timeout=''\<rparr>) = Finite (- 1)"
  by code_simp

section \<open>Usage errors and the exit code\<close>

lemma parse_loop_append:
  "parse_loop sd v (xs @ ys) =
     (case parse_loop sd v xs of Inl r \<Rightarrow> Inl r | Inr v' \<Rightarrow> parse_loop sd v' ys)"
  by (induction xs arbitrary: v) (simp_all split: sum.splits)

lemma parse_arg_unrecognized:
  assumes "\<not> readMount w" and "\<not> recognized a"
  shows "parse_arg sd w a =
     (if bootFilename w = None then Inr (w\<lparr>bootFilename := Some a\<rparr>)
      else if a = ''--help'' \<or> a = ''-h'' then Inl None
      else Inl (Some (''Unexpected argument '' @ a)))"
  using assms unfolding parse_arg_def recognized_def by simp

lemma parse_arg_mount:
  "\<not> readMount w \<Longrightarrow> a = ''-m'' \<or> a = ''--mount'' \<Longrightarrow> parse_arg sd w a = Inr (w\<lparr>readMount := True\<rparr>)"
  by (auto simp: parse_arg_def)

lemma parse_args_Inr:
  "parse_args sd args = Inr (v, b) \<Longrightarrow> bootFilename v = Some b \<and> \<not> readMount v \<and> args \<noteq> []"
  by (auto simp: parse_args_def init_locals_def split: sum.splits if_splits option.splits)

lemma host_first:
  assumes "run e v b = Some r"
  shows "take 2 (actions r) = host_trace v"
proof (cases "fst (boot_result e v b)")
  case False
  with assms have "r = boot_failed e v b" by (simp add: run_def)
  then show ?thesis by (simp add: boot_failed_def host_trace_def)
next
  case True
  from run_booted [OF True assms] obtain s' tr where
    r: "r = finish e v b s'" and
    alt: "(doCompare s' \<and> trace s' = trace (loop_start e v b) @ tr) \<or>
            (\<not> doCompare s' \<and>
             trace s' = trace (loop_start e v b) @ tr
                        @ timeout_report (teamCityMode v) (teamCityName v b) (output s'))"
    by blast
  from alt obtain rest where "trace s' = host_trace v @ rest"
    by (auto simp: loop_start_def)
  with r show ?thesis by (simp add: finish_def host_trace_def)
qed

text \<open>
  C4 (amended). When the arguments do not parse, the program prints the usage message
  and exits with code 1, and that is all it does: no host is made. They do not parse
  when, read in option position, the last argument is \<open>-m\<close> or \<open>--mount\<close>, or an
  argument is \<open>--graphics=NAME\<close> with an unknown name, or an argument that is no option
  comes after the boot file has been given (also \<open>--help\<close> and \<open>-h\<close>), or no boot file is
  given at all. The first argument that is no option is taken for the boot file, even
  when it looks like a flag. When the arguments parse, the host is made first, the
  process exits when the boot fails or some turn of the loop does not go on, and its
  exit code is 0 unless the boot failed, in which case it is 1.
\<close>

theorem usage_and_exit_code:
  "(parse_args (strtod e) args = Inl reason \<longrightarrow>
      main e p args = Some \<lparr>exit_code = 1, actions = [PrintUsage p reason], captured = []\<rparr>)
   \<and> (parse_args (strtod e) args = Inr (v, b) \<longrightarrow>
       bootFilename v = Some b \<and> \<not> readMount v
       \<and> (\<forall>r. main e p args = Some r \<longrightarrow>
             exit_code r = (if fst (boot_result e v b) then 0 else 1)
             \<and> take 2 (actions r) = [GetHost (gpuCore v), CallInitGL])
       \<and> (\<not> fst (boot_result e v b)
            \<or> \<not> continues e (deadline_of (time_start e) (timeout v)) k \<longrightarrow>
            (\<exists>r. main e p args = Some r)))
   \<and> (parse_loop sd init_locals pre = Inr w \<and> \<not> readMount w \<longrightarrow>
       ((a = ''-m'' \<or> a = ''--mount'') \<longrightarrow>
          parse_args sd (pre @ [a]) = Inl (Some ''Missing argument after -m''))
       \<and> (name \<noteq> [] \<and> map tolower name \<notin> set [''gles'', ''software'', ''directx9'', ''null'']
            \<longrightarrow> parse_args sd (pre @ (''--graphics='' @ name) # post)
                  = Inl (Some ''Unknown gpu backend specified after --graphics=''))
       \<and> (bootFilename w \<noteq> None \<and> \<not> recognized a \<longrightarrow>
            parse_args sd (pre @ a # post)
              = Inl (if a = ''--help'' \<or> a = ''-h'' then None
                     else Some (''Unexpected argument '' @ a)))
       \<and> (bootFilename w = None \<and> \<not> recognized a \<longrightarrow>
            parse_args sd (pre @ [a]) = Inr (w\<lparr>bootFilename := Some a\<rparr>, a))
       \<and> (bootFilename w = None \<longrightarrow>
            parse_args sd pre = Inl (if pre = [] then None else Some ''No executable specified'')))"
proof (intro conjI impI allI)
  assume "parse_args (strtod e) args = Inl reason"
  then show "main e p args = Some \<lparr>exit_code = 1, actions = [PrintUsage p reason], captured = []\<rparr>"
    by (rule main_usage)
next
  assume "parse_args (strtod e) args = Inr (v, b)"
  then show "bootFilename v = Some b" "\<not> readMount v"
    using parse_args_Inr by blast+
next
  fix r
  assume pa: "parse_args (strtod e) args = Inr (v, b)" and m: "main e p args = Some r"
  then have r: "run e v b = Some r" by (simp add: main_parsed)
  show "exit_code r = (if fst (boot_result e v b) then 0 else 1)"
  proof (cases "fst (boot_result e v b)")
    case True
    with events_after_boot [OF True r] show ?thesis by simp
  next
    case False
    with r have "r = boot_failed e v b" by (simp add: run_def)
    with False show ?thesis by (simp add: boot_failed_def)
  qed
  show "take 2 (actions r) = [GetHost (gpuCore v), CallInitGL]"
    using host_first [OF r] by (simp add: host_trace_def)
next
  assume pa: "parse_args (strtod e) args = Inr (v, b)"
    and "\<not> fst (boot_result e v b) \<or> \<not> continues e (deadline_of (time_start e) (timeout v)) k"
  then have "\<exists>r. run e v b = Some r"
    using run_terminates [of e v b k] run_boot_failed [of e v b] by blast
  with pa show "\<exists>r. main e p args = Some r" by (simp add: main_parsed)
next
  assume pl: "parse_loop sd init_locals pre = Inr w \<and> \<not> readMount w"
    and "a = ''-m'' \<or> a = ''--mount''"
  then show "parse_args sd (pre @ [a]) = Inl (Some ''Missing argument after -m'')"
    by (simp add: parse_args_def parse_loop_append parse_arg_mount)
next
  assume pl: "parse_loop sd init_locals pre = Inr w \<and> \<not> readMount w"
    and n: "name \<noteq> [] \<and> map tolower name \<notin> set [''gles'', ''software'', ''directx9'', ''null'']"
  then have "parse_arg sd w (''--graphics='' @ name)
               = Inl (Some ''Unknown gpu backend specified after --graphics='')"
    using parse_arg_graphics [of w name sd] by simp
  with pl show "parse_args sd (pre @ (''--graphics='' @ name) # post)
                  = Inl (Some ''Unknown gpu backend specified after --graphics='')"
    by (simp add: parse_args_def parse_loop_append del: append.simps)
next
  assume pl: "parse_loop sd init_locals pre = Inr w \<and> \<not> readMount w"
    and n: "bootFilename w \<noteq> None \<and> \<not> recognized a"
  then have "parse_arg sd w a = Inl (if a = ''--help'' \<or> a = ''-h'' then None
                     else Some (''Unexpected argument '' @ a))"
    using parse_arg_unrecognized [of w a sd] by simp
  with pl show "parse_args sd (pre @ a # post)
              = Inl (if a = ''--help'' \<or> a = ''-h'' then None
                     else Some (''Unexpected argument '' @ a))"
    by (simp add: parse_args_def parse_loop_append)
next
  assume pl: "parse_loop sd init_locals pre = Inr w \<and> \<not> readMount w"
    and n: "bootFilename w = None \<and> \<not> recognized a"
  then have "parse_arg sd w a = Inr (w\<lparr>bootFilename := Some a\<rparr>)"
    using parse_arg_unrecognized [of w a sd] by simp
  with pl show "parse_args sd (pre @ [a]) = Inr (w\<lparr>bootFilename := Some a\<rparr>, a)"
    by (simp add: parse_args_def parse_loop_append)
next
  assume pl: "parse_loop sd init_locals pre = Inr w \<and> \<not> readMount w"
    and n: "bootFilename w = None"
  then show "parse_args sd pre = Inl (if pre = [] then None else Some ''No executable specified'')"
    by (simp add: parse_args_def)
qed

theorem usage_and_exit_code_witness:
  "parse_args (strtod (world True True two_frames)) [] = Inl None
   \<and> main (world True True two_frames) ''headless'' []
       = Some \<lparr>exit_code = 1, actions = [PrintUsage ''headless'' None], captured = []\<rparr>
   \<and> parse_args (strtod (world True True two_frames)) args_teamcity
       = Inr (locals_teamcity, ''tests/cpu/alu.prx'')
   \<and> \<not> continues (world True True two_frames)
         (deadline_of (time_start (world True True two_frames)) (timeout locals_teamcity)) 2
   \<and> (\<exists>r. main (world True True two_frames) ''headless'' args_teamcity = Some r
          \<and> exit_code r = 0 \<and> take 2 (actions r) = [GetHost GPU_NULL, CallInitGL])
   \<and> parse_args (strtod (world True False two_frames)) args_teamcity
       = Inr (locals_teamcity, ''tests/cpu/alu.prx'')
   \<and> \<not> fst (boot_result (world True False two_frames) locals_teamcity ''tests/cpu/alu.prx'')
   \<and> (\<exists>r. main (world True False two_frames) ''headless'' args_teamcity = Some r
          \<and> exit_code r = 1)
   \<and> parse_loop strtod_table init_locals [''x.elf''] = Inr locals_boot
   \<and> \<not> readMount locals_boot \<and> bootFilename locals_boot \<noteq> None
   \<and> \<not> recognized ''--bogus''
   \<and> parse_args strtod_table [''x.elf'', ''-m''] = Inl (Some ''Missing argument after -m'')
   \<and> parse_args strtod_table [''x.elf'', ''--graphics=foo'', ''-l'']
       = Inl (Some ''Unknown gpu backend specified after --graphics='')
   \<and> parse_args strtod_table [''x.elf'', ''--bogus'', ''-l'']
       = Inl (Some ''Unexpected argument --bogus'')
   \<and> parse_loop strtod_table init_locals [] = Inr init_locals
   \<and> \<not> readMount init_locals \<and> bootFilename init_locals = None
   \<and> parse_args strtod_table [''--bogus'']
       = Inr (init_locals\<lparr>bootFilename := Some ''--bogus''\<rparr>, ''--bogus'')"
proof -
  let ?w = "world True True two_frames" and ?w' = "world True False two_frames"
  let ?b = "''tests/cpu/alu.prx''"
  have p0: "parse_args (strtod ?w) [] = Inl None" by code_simp
  have p: "parse_args (strtod ?w) args_teamcity = Inr (locals_teamcity, ?b)"
    and p': "parse_args (strtod ?w') args_teamcity = Inr (locals_teamcity, ?b)"
    by code_simp+
  have nc: "\<not> continues ?w (deadline_of (time_start ?w) (timeout locals_teamcity)) 2"
    by code_simp
  have ok: "fst (boot_result ?w locals_teamcity ?b)"
    and nb: "\<not> fst (boot_result ?w' locals_teamcity ?b)"
    and gp: "gpuCore locals_teamcity = GPU_NULL"
    by code_simp+
  have l1: "parse_loop strtod_table init_locals [''x.elf''] = Inr locals_boot"
    and l0: "parse_loop strtod_table init_locals [] = Inr init_locals"
    by code_simp+
  have f1: "\<not> readMount locals_boot" "bootFilename locals_boot \<noteq> None"
    "\<not> recognized ''--bogus''" "\<not> readMount init_locals" "bootFilename init_locals = None"
    by code_simp+
  have lf: "map tolower ''foo'' \<notin> set [''gles'', ''software'', ''directx9'', ''null'']"
    by code_simp
  have c0: "main ?w ''headless'' []
       = Some \<lparr>exit_code = 1, actions = [PrintUsage ''headless'' None], captured = []\<rparr>"
    using usage_and_exit_code [of ?w "[]" None "''headless''"] p0 by blast
  note t = usage_and_exit_code [of ?w args_teamcity _ "''headless''" locals_teamcity ?b 2]
  from t p nc obtain r where r: "main ?w ''headless'' args_teamcity = Some r" by blast
  with t p ok gp have "exit_code r = 0 \<and> take 2 (actions r) = [GetHost GPU_NULL, CallInitGL]"
    by simp
  with r have c1: "\<exists>r. main ?w ''headless'' args_teamcity = Some r
          \<and> exit_code r = 0 \<and> take 2 (actions r) = [GetHost GPU_NULL, CallInitGL]"
    by blast
  note t' = usage_and_exit_code [of ?w' args_teamcity _ "''headless''" locals_teamcity ?b 2]
  from t' p' nb obtain r' where r': "main ?w' ''headless'' args_teamcity = Some r'" by blast
  with t' p' nb have "exit_code r' = 1" by simp
  with r' have c2: "\<exists>r. main ?w' ''headless'' args_teamcity = Some r \<and> exit_code r = 1"
    by blast
  note u = usage_and_exit_code
     [of _ _ _ _ _ _ _ strtod_table "[''x.elf'']" locals_boot _ "''foo''" "[''-l'']"]
  have c3: "parse_args strtod_table ([''x.elf''] @ [''-m''])
              = Inl (Some ''Missing argument after -m'')"
    using u [of _ _ _ _ _ _ _ "''-m''"] l1 f1 by blast
  have c4: "parse_args strtod_table ([''x.elf''] @ (''--graphics='' @ ''foo'') # [''-l''])
       = Inl (Some ''Unknown gpu backend specified after --graphics='')"
    using u [of _ _ _ _ _ _ _ "''--bogus''"] l1 f1 lf by blast
  have c5: "parse_args strtod_table ([''x.elf''] @ ''--bogus'' # [''-l''])
       = Inl (Some ''Unexpected argument --bogus'')"
    using u [of _ _ _ _ _ _ _ "''--bogus''"] l1 f1 by simp
  have c6: "parse_args strtod_table ([] @ [''--bogus''])
       = Inr (init_locals\<lparr>bootFilename := Some ''--bogus''\<rparr>, ''--bogus'')"
    using usage_and_exit_code
     [of _ _ _ _ _ _ _ strtod_table "[]" init_locals "''--bogus''"] l0 f1 by blast
  from p0 c0 p nc c1 p' nb c2 l1 f1 c3 c4 c5 l0 c6 show ?thesis by simp
qed

text \<open>
  C4 as stated fails at an unrecognized flag that comes before any boot file: it is taken
  for the boot file, no usage message is printed, the host is made and (the boot
  succeeding) the process exits with code 0.
\<close>

theorem unrecognized_flag_boots:
  "map_option exit_code (main (world True True two_frames) ''headless'' [''--bogus'']) = Some 0
   \<and> map_option (take 2 \<circ> actions)
        (main (world True True two_frames) ''headless'' [''--bogus''])
      = Some [GetHost GPU_NULL, CallInitGL]
   \<and> \<not> recognized ''--bogus''"
  by code_simp

end
